theory Spec2Isabelle
  imports Complex_Main "HOL-Library.Sublist"
begin

section \<open>Data model (\<^verbatim>\<open>cas_alert/data/models.py\<close>)\<close>

text \<open>
  Python's \<^verbatim>\<open>datetime\<close>: a naive timestamp with calendar fields. The constructor of the
  library accepts only values for which \<open>valid_datetime\<close> below holds.
\<close>

record datetime =
  year :: nat
  month :: nat
  day :: nat
  hour :: nat
  minute :: nat
  second :: nat
  microsecond :: nat

definition is_leap :: "nat \<Rightarrow> bool" where
  "is_leap y = (if y mod 100 = 0 then y mod 400 = 0 else y mod 4 = 0)"

definition days_in_month :: "nat \<Rightarrow> nat \<Rightarrow> nat" where
  "days_in_month y m =
     (if m = 2 then (if is_leap y then 29 else 28)
      else if m = 4 \<or> m = 6 \<or> m = 9 \<or> m = 11 then 30 else 31)"

definition valid_datetime :: "datetime \<Rightarrow> bool" where
  "valid_datetime d =
     (1 \<le> year d \<and> year d \<le> 9999 \<and> 1 \<le> month d \<and> month d \<le> 12 \<and>
      1 \<le> day d \<and> day d \<le> days_in_month (year d) (month d) \<and>
      hour d < 24 \<and> minute d < 60 \<and> second d < 60 \<and> microsecond d < 1000000)"

text \<open>\<^verbatim>\<open>datetime.date()\<close>: the calendar day of a timestamp.\<close>

definition date :: "datetime \<Rightarrow> nat \<times> nat \<times> nat" where
  "date d = (year d, month d, day d)"

text \<open>
  The dataclass \<^verbatim>\<open>Alert\<close>. The three fields typed \<^verbatim>\<open>Optional\<close> that the code tests
  against \<^verbatim>\<open>None\<close> or for truthiness are options here, as are the enrichment fields.
\<close>

record Alert =
  reference :: string
  title :: string
  originator :: string
  issue_date :: datetime
  status :: string
  alert_type :: string
  source :: string
  url :: string
  medical_specialty :: "string option"
  scraped_at :: "datetime option"
  hash_id :: "string option"
  action_category :: "string option"
  broadcast_content :: "string option"
  additional_info :: "string option"
  action_underway_deadline :: "string option"
  action_complete_deadline :: "string option"
  attachments :: "string option"

text \<open>
  A string is the list of its code points, each below 256. Python truthiness of an optional
  string: neither \<^verbatim>\<open>None\<close> nor the empty string.
\<close>

fun truthy :: "string option \<Rightarrow> bool" where
  "truthy None = False"
| "truthy (Some s) = (s \<noteq> [])"

subsection \<open>Formatting dates: \<^verbatim>\<open>strftime\<close>\<close>

definition digit :: "nat \<Rightarrow> char" where
  "digit n = char_of (48 + n mod 10)"

definition pad2 :: "nat \<Rightarrow> string" where
  "pad2 n = [digit (n div 10), digit n]"

definition pad4 :: "nat \<Rightarrow> string" where
  "pad4 n = [digit (n div 1000), digit (n div 100), digit (n div 10), digit n]"

text \<open>
  \<^verbatim>\<open>%Y\<close> is written by the C library, and what it writes for a year below 1000 depends on
  the platform: some libraries pad the year with zeros to four digits, glibc writes it without
  padding (\<^verbatim>\<open>'999'\<close>). The flag \<open>pad\<close> says which; it is a parameter of everything that
  formats a date. From 1000 on the year has four digits either way.
\<close>

definition year_text :: "bool \<Rightarrow> nat \<Rightarrow> string" where
  "year_text pad y =
     (if pad \<or> 1000 \<le> y then pad4 y
      else if 100 \<le> y then [digit (y div 100), digit (y div 10), digit y]
      else if 10 \<le> y then [digit (y div 10), digit y]
      else [digit y])"

text \<open>\<^verbatim>\<open>d.strftime('%Y-%m-%d')\<close>.\<close>

definition strftime_ymd :: "bool \<Rightarrow> datetime \<Rightarrow> string" where
  "strftime_ymd pad d =
     year_text pad (year d) @ ''-'' @ pad2 (month d) @ ''-'' @ pad2 (day d)"

text \<open>\<^verbatim>\<open>d.strftime('%Y-%m-%d %H:%M:%S')\<close>.\<close>

definition strftime_ymd_hms :: "bool \<Rightarrow> datetime \<Rightarrow> string" where
  "strftime_ymd_hms pad d =
     strftime_ymd pad d @ '' '' @ pad2 (hour d) @ '':'' @ pad2 (minute d) @ '':'' @
     pad2 (second d)"

subsection \<open>Construction and the identity hash\<close>

text \<open>
  \<^verbatim>\<open>Alert.generate_hash\<close>. The digest \<^verbatim>\<open>hashlib.md5(s.encode()).hexdigest()\<close> belongs to the
  standard library; it is the parameter \<open>md5\<close>, a function from strings to strings.
\<close>

definition hash_content :: "bool \<Rightarrow> Alert \<Rightarrow> string" where
  "hash_content pad self =
     reference self @ ''|'' @ title self @ ''|'' @ originator self @ ''|'' @
     strftime_ymd pad (issue_date self)"

definition generate_hash :: "(string \<Rightarrow> string) \<Rightarrow> bool \<Rightarrow> Alert \<Rightarrow> string" where
  "generate_hash md5 pad self = md5 (hash_content pad self)"

text \<open>
  \<^verbatim>\<open>Alert.__post_init__\<close>: \<open>now\<close> is what \<^verbatim>\<open>datetime.now()\<close> returns when it is called.
  The two assignments happen in the order of the source.
\<close>

definition post_init ::
  "(string \<Rightarrow> string) \<Rightarrow> bool \<Rightarrow> datetime \<Rightarrow> Alert \<Rightarrow> Alert" where
  "post_init md5 pad now self =
     (let self1 = (if scraped_at self = None then self\<lparr>scraped_at := Some now\<rparr> else self);
          self2 = (if hash_id self1 = None
                   then self1\<lparr>hash_id := Some (generate_hash md5 pad self1)\<rparr> else self1)
      in self2)"

text \<open>
  The generated \<^verbatim>\<open>__init__\<close> of the dataclass: store the seventeen arguments, then run
  \<open>post_init\<close>.
\<close>

definition new_Alert ::
  "(string \<Rightarrow> string) \<Rightarrow> bool \<Rightarrow> datetime \<Rightarrow>
   string \<Rightarrow> string \<Rightarrow> string \<Rightarrow> datetime \<Rightarrow> string \<Rightarrow> string \<Rightarrow> string \<Rightarrow> string \<Rightarrow>
   string option \<Rightarrow> datetime option \<Rightarrow> string option \<Rightarrow>
   string option \<Rightarrow> string option \<Rightarrow> string option \<Rightarrow> string option \<Rightarrow> string option \<Rightarrow>
   string option \<Rightarrow> Alert" where
  "new_Alert md5 pad now ref ttl orig idate st atype src u ms sa hid ac bc ai aud acd att =
     post_init md5 pad now
       \<lparr>reference = ref, title = ttl, originator = orig, issue_date = idate, status = st,
        alert_type = atype, source = src, url = u, medical_specialty = ms, scraped_at = sa,
        hash_id = hid, action_category = ac, broadcast_content = bc, additional_info = ai,
        action_underway_deadline = aud, action_complete_deadline = acd, attachments = att\<rparr>"

subsection \<open>Parsing dates: \<^verbatim>\<open>datetime.strptime\<close>\<close>

text \<open>
  The two formats the code parses, following the regular expressions the library builds from
  them: \<^verbatim>\<open>%Y\<close> is four digits, the other numeric directives are one or two digits in their
  range, \<^verbatim>\<open>%d\<close> also accepts a space and a digit, a blank in the format matches one or more
  white-space characters, and the whole string must be consumed. A string that does not match,
  or that names no valid timestamp, raises \<^verbatim>\<open>ValueError\<close>: the result \<open>None\<close>. Below code
  point 256 the digits of \<^verbatim>\<open>\d\<close> are \<^verbatim>\<open>0\<close> to \<^verbatim>\<open>9\<close>, and the white space of \<^verbatim>\<open>\s\<close> is 9 to 13,
  28 to 32, 133 and 160.
\<close>

definition is_digit :: "char \<Rightarrow> bool" where
  "is_digit c = (48 \<le> (of_char c :: nat) \<and> (of_char c :: nat) \<le> 57)"

definition digit_value :: "char \<Rightarrow> nat" where
  "digit_value c = (of_char c :: nat) - 48"

definition number :: "string \<Rightarrow> nat" where
  "number s = foldl (\<lambda>a c. 10 * a + digit_value c) 0 s"

definition is_space :: "char \<Rightarrow> bool" where
  "is_space c =
     ((9 \<le> (of_char c :: nat) \<and> (of_char c :: nat) \<le> 13) \<or>
      (28 \<le> (of_char c :: nat) \<and> (of_char c :: nat) \<le> 32) \<or>
      (of_char c :: nat) = 133 \<or> (of_char c :: nat) = 160)"

definition field2 :: "nat \<Rightarrow> nat \<Rightarrow> string \<Rightarrow> nat option" where
  "field2 lo hi tok =
     (if (length tok = 1 \<or> length tok = 2) \<and> list_all is_digit tok \<and>
         lo \<le> number tok \<and> number tok \<le> hi
      then Some (number tok) else None)"

definition day_field :: "string \<Rightarrow> nat option" where
  "day_field tok =
     (if length tok = 2 \<and> take 1 tok = '' '' then field2 1 9 (drop 1 tok) else field2 1 31 tok)"

definition make_datetime :: "nat \<Rightarrow> nat \<Rightarrow> nat \<Rightarrow> nat \<Rightarrow> nat \<Rightarrow> nat \<Rightarrow> datetime option" where
  "make_datetime y mo d h mi s =
     (let t = \<lparr>year = y, month = mo, day = d, hour = h, minute = mi, second = s, microsecond = 0\<rparr>
      in if valid_datetime t then Some t else None)"

text \<open>
  \<open>split_at c s\<close> cuts \<open>s\<close> at the first \<open>c\<close>: the token before it and the rest after it.
  \<open>split_day\<close> cuts off the day token (a blank and a digit, or what precedes the first
  white space) and the white space that must follow it.
\<close>

definition split_at :: "char \<Rightarrow> string \<Rightarrow> (string \<times> string) option" where
  "split_at c s =
     (if c \<in> set s
      then Some (takeWhile (\<lambda>x. x \<noteq> c) s, drop 1 (dropWhile (\<lambda>x. x \<noteq> c) s))
      else None)"

definition split_day :: "string \<Rightarrow> (string \<times> string) option" where
  "split_day r =
     (let d = (if take 1 r = '' '' then take 2 r else takeWhile (\<lambda>c. \<not> is_space c) r)
      in case drop (length d) r of
           [] \<Rightarrow> None
         | c # rest \<Rightarrow> if is_space c then Some (d, dropWhile is_space rest) else None)"

definition year_field :: "string \<Rightarrow> nat option" where
  "year_field tok =
     (if length tok = 4 \<and> list_all is_digit tok then Some (number tok) else None)"

text \<open>\<^verbatim>\<open>datetime.strptime(s, '%Y-%m-%d')\<close>.\<close>

definition strptime_ymd :: "string \<Rightarrow> datetime option" where
  "strptime_ymd s =
     (case split_at CHR ''-'' s of
        None \<Rightarrow> None
      | Some (Y, r1) \<Rightarrow>
         (case split_at CHR ''-'' r1 of
            None \<Rightarrow> None
          | Some (m, d) \<Rightarrow>
             (case (year_field Y, field2 1 12 m, day_field d) of
                (Some y, Some mo, Some dy) \<Rightarrow> make_datetime y mo dy 0 0 0
              | _ \<Rightarrow> None)))"

text \<open>\<^verbatim>\<open>datetime.strptime(s, '%Y-%m-%d %H:%M:%S')\<close>.\<close>

definition strptime_hms :: "string \<Rightarrow> (nat \<times> nat \<times> nat) option" where
  "strptime_hms s =
     (case split_at CHR '':'' s of
        None \<Rightarrow> None
      | Some (H, r1) \<Rightarrow>
         (case split_at CHR '':'' r1 of
            None \<Rightarrow> None
          | Some (M, S) \<Rightarrow>
             (case (field2 0 23 H, field2 0 59 M, field2 0 61 S) of
                (Some h, Some mi, Some sec) \<Rightarrow> Some (h, mi, sec)
              | _ \<Rightarrow> None)))"

definition strptime_ymd_hms :: "string \<Rightarrow> datetime option" where
  "strptime_ymd_hms s =
     (case split_at CHR ''-'' s of
        None \<Rightarrow> None
      | Some (Y, r1) \<Rightarrow>
         (case split_at CHR ''-'' r1 of
            None \<Rightarrow> None
          | Some (m, r2) \<Rightarrow>
             (case split_day r2 of
                None \<Rightarrow> None
              | Some (d, r3) \<Rightarrow>
                 (case (year_field Y, field2 1 12 m, day_field d, strptime_hms r3) of
                    (Some y, Some mo, Some dy, Some (h, mi, sec)) \<Rightarrow>
                      make_datetime y mo dy h mi sec
                  | _ \<Rightarrow> None))))"

subsection \<open>Rows: \<^verbatim>\<open>to_dict\<close> and \<^verbatim>\<open>from_dict\<close>\<close>

text \<open>
  A row is a dictionary from column names to strings. The only value \<^verbatim>\<open>to_dict\<close> can store
  that is not a string is a \<^verbatim>\<open>hash_id\<close> of \<^verbatim>\<open>None\<close>; the row then has no binding for
  \<^verbatim>\<open>'Hash ID'\<close>, which \<^verbatim>\<open>data.get('Hash ID')\<close> does not tell apart.
  \<open>or_empty x\<close> is \<^verbatim>\<open>x or ''\<close>, \<open>get_or data k dflt\<close> is \<^verbatim>\<open>data.get(k, dflt)\<close> and
  \<open>get_or_None data k\<close> is \<^verbatim>\<open>data.get(k) or None\<close>.
\<close>

definition or_empty :: "string option \<Rightarrow> string" where
  "or_empty x = (case x of None \<Rightarrow> [] | Some s \<Rightarrow> s)"

definition to_dict :: "bool \<Rightarrow> Alert \<Rightarrow> (string \<rightharpoonup> string)" where
  "to_dict pad self =
     (map_of
        [(''Reference'', reference self),
         (''Title'', title self),
         (''Originator'', originator self),
         (''Issue Date'', strftime_ymd pad (issue_date self)),
         (''Status'', status self),
         (''Alert Type'', alert_type self),
         (''Source'', source self),
         (''URL'', url self),
         (''Medical Specialty'', or_empty (medical_specialty self)),
         (''Scraped At'',
            (case scraped_at self of None \<Rightarrow> [] | Some t \<Rightarrow> strftime_ymd_hms pad t)),
         (''Action Category'', or_empty (action_category self)),
         (''Broadcast Content'', or_empty (broadcast_content self)),
         (''Additional Info'', or_empty (additional_info self)),
         (''Action Underway Deadline'', or_empty (action_underway_deadline self)),
         (''Action Complete Deadline'', or_empty (action_complete_deadline self)),
         (''Attachments'', or_empty (attachments self))])
     (''Hash ID'' := hash_id self)"

definition get_or :: "(string \<rightharpoonup> string) \<Rightarrow> string \<Rightarrow> string \<Rightarrow> string" where
  "get_or data k dflt = (case data k of None \<Rightarrow> dflt | Some v \<Rightarrow> v)"

definition get_or_None :: "(string \<rightharpoonup> string) \<Rightarrow> string \<Rightarrow> string option" where
  "get_or_None data k = (case data k of None \<Rightarrow> None | Some v \<Rightarrow> if v = [] then None else Some v)"

datatype error = ValueError

text \<open>
  \<^verbatim>\<open>Alert.from_dict\<close>. \<open>now_issue\<close> and \<open>now_scraped\<close> are the readings of \<^verbatim>\<open>datetime.now()\<close>
  at its two call sites; the arguments are evaluated in the order written, so a malformed
  issue date raises before the scrape time is looked at. \<open>post_init\<close> never reads the clock
  here, since \<^verbatim>\<open>scraped_at\<close> is always supplied.
\<close>

definition from_dict ::
  "(string \<Rightarrow> string) \<Rightarrow> bool \<Rightarrow> datetime \<Rightarrow> datetime \<Rightarrow> (string \<rightharpoonup> string) \<Rightarrow>
   error + Alert" where
  "from_dict md5 pad now_issue now_scraped data =
     (let issue_date_str = get_or data ''Issue Date'' [];
          scraped_at_str = get_or data ''Scraped At'' []
      in case (if issue_date_str \<noteq> [] then strptime_ymd issue_date_str else Some now_issue) of
           None \<Rightarrow> Inl ValueError
         | Some idate \<Rightarrow>
            (case (if scraped_at_str \<noteq> [] then strptime_ymd_hms scraped_at_str
                   else Some now_scraped) of
               None \<Rightarrow> Inl ValueError
             | Some sa \<Rightarrow>
                Inr (new_Alert md5 pad now_scraped
                       (get_or data ''Reference'' [])
                       (get_or data ''Title'' [])
                       (get_or data ''Originator'' [])
                       idate
                       (get_or data ''Status'' [])
                       (get_or data ''Alert Type'' [])
                       (get_or data ''Source'' [])
                       (get_or data ''URL'' [])
                       (get_or_None data ''Medical Specialty'')
                       (Some sa)
                       (data ''Hash ID'')
                       (get_or_None data ''Action Category'')
                       (get_or_None data ''Broadcast Content'')
                       (get_or_None data ''Additional Info'')
                       (get_or_None data ''Action Underway Deadline'')
                       (get_or_None data ''Action Complete Deadline'')
                       (get_or_None data ''Attachments''))))"

section \<open>Duplicate detection (\<^verbatim>\<open>cas_alert/data/duplicates.py\<close>)\<close>

text \<open>
  \<^verbatim>\<open>str.lower()\<close>. Below code point 256 the letters it changes are \<^verbatim>\<open>A\<close> to \<^verbatim>\<open>Z\<close> (65 to 90)
  and the accented capitals 192 to 214 and 216 to 222; each moves up by 32.
\<close>

definition lower_char :: "char \<Rightarrow> char" where
  "lower_char c =
     (if (65 \<le> (of_char c :: nat) \<and> (of_char c :: nat) \<le> 90) \<or>
         (192 \<le> (of_char c :: nat) \<and> (of_char c :: nat) \<le> 214) \<or>
         (216 \<le> (of_char c :: nat) \<and> (of_char c :: nat) \<le> 222)
      then char_of ((of_char c :: nat) + 32) else c)"

definition lower :: "string \<Rightarrow> string" where
  "lower s = map lower_char s"

subsection \<open>Python floats\<close>

text \<open>
  The threshold is a Python \<^verbatim>\<open>float\<close>, an IEEE 754 double: a rational number with 53
  significant bits, an infinity, or not-a-number (the sign of zero is left out: no comparison
  sees it). \<open>round_double\<close> rounds a rational to the nearest double, ties to the even
  significand, with the gradual underflow and the overflow of the format (the result is
  infinite when the rounded value reaches \<open>2 ^ 1024\<close>). It is what
  \<^verbatim>\<open>float('0.85')\<close> does to the decimal it reads and what every arithmetic operation does
  to its exact result.
\<close>

datatype pyfloat = Finite rat | PosInf | NegInf | NaN

function bit_length :: "nat \<Rightarrow> nat" where
  "bit_length n = (if n = 0 then 0 else Suc (bit_length (n div 2)))"
  by pat_completeness auto
termination
  by (relation "measure id") auto

declare bit_length.simps [simp del]

text \<open>The exponent of a positive rational: \<open>2 ^ e \<le> a < 2 ^ (e + 1)\<close>.\<close>

definition floor_log2 :: "rat \<Rightarrow> int" where
  "floor_log2 a =
     (if 1 \<le> a then int (bit_length (nat \<lfloor>a\<rfloor>)) - 1
      else - int (bit_length (nat \<lceil>1 / a\<rceil> - 1)))"

definition pow2 :: "int \<Rightarrow> rat" where
  "pow2 e = (if 0 \<le> e then 2 ^ nat e else 1 / 2 ^ nat (- e))"

text \<open>Python's \<^verbatim>\<open>round\<close> to an integer: to the nearest, ties to the even one.\<close>

definition round_half_even :: "rat \<Rightarrow> int" where
  "round_half_even q =
     (let f = \<lfloor>q\<rfloor>; r = q - of_int f
      in if r < 1 / 2 then f else if 1 / 2 < r then f + 1 else if even f then f else f + 1)"

definition round_double :: "rat \<Rightarrow> pyfloat" where
  "round_double x =
     (if x = 0 then Finite 0
      else let a = \<bar>x\<bar>;
               e = max (floor_log2 a) (- 1022);
               ulp = pow2 (e - 52);
               n = round_half_even (a / ulp);
               r = of_int n * ulp
           in if 1023 < e \<or> (e = 1023 \<and> n = 2 ^ 53)
              then (if 0 < x then PosInf else NegInf)
              else Finite (if 0 < x then r else - r))"

text \<open>\<^verbatim>\<open>x * y\<close> on floats.\<close>

fun float_mul :: "pyfloat \<Rightarrow> pyfloat \<Rightarrow> pyfloat" where
  "float_mul (Finite x) (Finite y) = round_double (x * y)"
| "float_mul NaN y = NaN"
| "float_mul x NaN = NaN"
| "float_mul PosInf (Finite y) = (if 0 < y then PosInf else if y < 0 then NegInf else NaN)"
| "float_mul NegInf (Finite y) = (if 0 < y then NegInf else if y < 0 then PosInf else NaN)"
| "float_mul (Finite x) PosInf = (if 0 < x then PosInf else if x < 0 then NegInf else NaN)"
| "float_mul (Finite x) NegInf = (if 0 < x then NegInf else if x < 0 then PosInf else NaN)"
| "float_mul PosInf PosInf = PosInf"
| "float_mul PosInf NegInf = NegInf"
| "float_mul NegInf PosInf = NegInf"
| "float_mul NegInf NegInf = PosInf"

text \<open>
  \<^verbatim>\<open>i >= x\<close> for an integer \<open>i\<close> and a float \<open>x\<close>: Python compares the two exactly, and
  every comparison with not-a-number is false.
\<close>

fun int_ge_float :: "int \<Rightarrow> pyfloat \<Rightarrow> bool" where
  "int_ge_float i (Finite x) = (x \<le> of_int i)"
| "int_ge_float i PosInf = False"
| "int_ge_float i NegInf = True"
| "int_ge_float i NaN = False"

subsection \<open>The manager and its two methods\<close>

text \<open>
  \<^verbatim>\<open>DuplicateManager\<close> holds the threshold read from the settings,
  \<^verbatim>\<open>float(os.getenv('DUPLICATE_THRESHOLD', '0.85'))\<close>; the default is the double nearest
  to 85/100.
\<close>

record DuplicateManager =
  duplicate_threshold :: pyfloat

definition DEFAULT_DUPLICATE_THRESHOLD :: pyfloat where
  "DEFAULT_DUPLICATE_THRESHOLD = round_double (85 / 100)"

definition new_DuplicateManager :: "pyfloat \<Rightarrow> DuplicateManager" where
  "new_DuplicateManager settings_DUPLICATE_THRESHOLD =
     \<lparr>duplicate_threshold = settings_DUPLICATE_THRESHOLD\<rparr>"

text \<open>
  \<^verbatim>\<open>DuplicateManager.is_duplicate\<close>. The similarity \<^verbatim>\<open>fuzz.ratio\<close> comes from the package
  \<^verbatim>\<open>fuzzywuzzy\<close>, outside the repository: it is the parameter \<open>ratio\<close>, an integer score
  for two strings. The cutoff \<^verbatim>\<open>self.duplicate_threshold * 100\<close> is a product of floats.
\<close>

definition is_duplicate ::
  "(string \<Rightarrow> string \<Rightarrow> int) \<Rightarrow> DuplicateManager \<Rightarrow> Alert \<Rightarrow> Alert \<Rightarrow> bool" where
  "is_duplicate ratio self alert1 alert2 =
     (if reference alert1 \<noteq> [] \<and> reference alert1 = reference alert2 then True
      else if source alert1 = source alert2 \<and>
              int_ge_float (ratio (lower (title alert1)) (lower (title alert2)))
                (float_mul (duplicate_threshold self) (Finite 100)) \<and>
              date (issue_date alert1) = date (issue_date alert2) then True
      else if truthy (hash_id alert1) \<and> hash_id alert1 = hash_id alert2 then True
      else False)"

text \<open>
  \<^verbatim>\<open>DuplicateManager.remove_duplicates\<close>, first loop. The state is the triple
  \<^verbatim>\<open>(unique_alerts, seen_hashes, seen_references)\<close>. \<open>seen_in h S\<close> is the test
  \<^verbatim>\<open>alert.hash_id and alert.hash_id in seen_hashes\<close>, \<open>add_seen h S\<close> the statement
  \<^verbatim>\<open>if alert.hash_id: seen_hashes.add(alert.hash_id)\<close>; the same statement for the
  reference, which is a string and never \<^verbatim>\<open>None\<close>, is \<open>add_seen (Some (reference alert))\<close>.
\<close>

definition seen_in :: "string option \<Rightarrow> string set \<Rightarrow> bool" where
  "seen_in h S = (case h of None \<Rightarrow> False | Some s \<Rightarrow> s \<noteq> [] \<and> s \<in> S)"

definition add_seen :: "string option \<Rightarrow> string set \<Rightarrow> string set" where
  "add_seen h S = (case h of None \<Rightarrow> S | Some s \<Rightarrow> if s \<noteq> [] then insert s S else S)"

definition exact_step ::
  "Alert \<Rightarrow> Alert list \<times> string set \<times> string set \<Rightarrow> Alert list \<times> string set \<times> string set" where
  "exact_step alert st =
     (case st of (unique_alerts, seen_hashes, seen_references) \<Rightarrow>
        if reference alert \<noteq> [] \<and> reference alert \<in> seen_references then st
        else if seen_in (hash_id alert) seen_hashes then st
        else (unique_alerts @ [alert],
              add_seen (hash_id alert) seen_hashes,
              add_seen (Some (reference alert)) seen_references))"

definition unique_alerts_of :: "Alert list \<Rightarrow> Alert list" where
  "unique_alerts_of alerts = fst (fold exact_step alerts ([], {}, {}))"

text \<open>
  Second loop. The inner loop over \<^verbatim>\<open>j in range(i + 1, len(unique_alerts))\<close> updates the set
  \<^verbatim>\<open>processed_indices\<close>; the outer loop over \<^verbatim>\<open>i in range(len(unique_alerts))\<close> carries
  \<^verbatim>\<open>(final_unique_alerts, processed_indices)\<close>. Every index read is in range.
\<close>

definition mark_step ::
  "(string \<Rightarrow> string \<Rightarrow> int) \<Rightarrow> DuplicateManager \<Rightarrow> Alert list \<Rightarrow> nat \<Rightarrow> nat \<Rightarrow> nat set \<Rightarrow> nat set" where
  "mark_step ratio self unique_alerts i j processed_indices =
     (if j \<in> processed_indices then processed_indices
      else if is_duplicate ratio self (unique_alerts ! i) (unique_alerts ! j)
           then insert j processed_indices
           else processed_indices)"

definition fuzzy_step ::
  "(string \<Rightarrow> string \<Rightarrow> int) \<Rightarrow> DuplicateManager \<Rightarrow> Alert list \<Rightarrow> nat \<Rightarrow>
   Alert list \<times> nat set \<Rightarrow> Alert list \<times> nat set" where
  "fuzzy_step ratio self unique_alerts i st =
     (case st of (final_unique_alerts, processed_indices) \<Rightarrow>
        if i \<in> processed_indices then st
        else (final_unique_alerts @ [unique_alerts ! i],
              fold (mark_step ratio self unique_alerts i)
                   [i + 1 ..< length unique_alerts] processed_indices))"

definition final_unique_alerts_of ::
  "(string \<Rightarrow> string \<Rightarrow> int) \<Rightarrow> DuplicateManager \<Rightarrow> Alert list \<Rightarrow> Alert list" where
  "final_unique_alerts_of ratio self unique_alerts =
     fst (fold (fuzzy_step ratio self unique_alerts) [0 ..< length unique_alerts] ([], {}))"

definition remove_duplicates ::
  "(string \<Rightarrow> string \<Rightarrow> int) \<Rightarrow> DuplicateManager \<Rightarrow> Alert list \<Rightarrow> Alert list" where
  "remove_duplicates ratio self alerts =
     final_unique_alerts_of ratio self (unique_alerts_of alerts)"

section \<open>Selecting the alerts to append (\<^verbatim>\<open>cas_alert/storage/google_sheets.py\<close>)\<close>

text \<open>
  The selection loop of \<^verbatim>\<open>GoogleSheetsManager.update_with_new_alerts\<close>, between reading the
  sheet and writing to it. \<open>existing_alerts\<close> is what \<^verbatim>\<open>get_existing_alerts\<close> returned. The two
  set comprehensions build the known hashes and references; the loop carries
  \<^verbatim>\<open>(alerts_to_add, existing_hashes, existing_references)\<close>.
\<close>

definition existing_hashes_of :: "Alert list \<Rightarrow> string set" where
  "existing_hashes_of existing_alerts =
     set (List.map_filter (\<lambda>alert. if truthy (hash_id alert) then hash_id alert else None)
            existing_alerts)"

definition existing_references_of :: "Alert list \<Rightarrow> string set" where
  "existing_references_of existing_alerts =
     set (List.map_filter (\<lambda>alert. if reference alert \<noteq> [] then Some (reference alert) else None)
            existing_alerts)"

definition add_step ::
  "Alert \<Rightarrow> Alert list \<times> string set \<times> string set \<Rightarrow> Alert list \<times> string set \<times> string set" where
  "add_step alert st =
     (case st of (alerts_to_add, existing_hashes, existing_references) \<Rightarrow>
        if seen_in (hash_id alert) existing_hashes then st
        else if reference alert \<noteq> [] \<and> reference alert \<in> existing_references then st
        else (alerts_to_add @ [alert],
              add_seen (hash_id alert) existing_hashes,
              add_seen (Some (reference alert)) existing_references))"

definition alerts_to_add :: "Alert list \<Rightarrow> Alert list \<Rightarrow> Alert list" where
  "alerts_to_add existing_alerts new_alerts =
     fst (fold add_step new_alerts
            ([], existing_hashes_of existing_alerts, existing_references_of existing_alerts))"

section \<open>Auxiliary definitions\<close>

subsection \<open>The two loops as recursive functions\<close>

text \<open>
  Both exact-match loops keep an alert unless its hash or its reference has been seen, and
  then record both; \<open>keep_new\<close> is that filter by recursion on the list. \<open>keep_first\<close> keeps
  the head and deletes what the head matches from the rest. The loops are proved equal to
  them below; no theorem is stated about them alone.
\<close>

fun keep_new :: "string set \<Rightarrow> string set \<Rightarrow> Alert list \<Rightarrow> Alert list" where
  "keep_new H R [] = []"
| "keep_new H R (a # as) =
     (if seen_in (hash_id a) H \<or> seen_in (Some (reference a)) R then keep_new H R as
      else a # keep_new (add_seen (hash_id a) H) (add_seen (Some (reference a)) R) as)"

fun keep_first :: "('a \<Rightarrow> 'a \<Rightarrow> bool) \<Rightarrow> 'a list \<Rightarrow> 'a list" where
  "keep_first dup [] = []"
| "keep_first dup (x # xs) = x # keep_first dup (filter (\<lambda>y. \<not> dup x y) xs)"

text \<open>The state a constructed alert is in: both optional fields of \<open>post_init\<close> are set.\<close>

definition constructed :: "Alert \<Rightarrow> bool" where
  "constructed a =
     (valid_datetime (issue_date a) \<and> hash_id a \<noteq> None \<and>
      (case scraped_at a of None \<Rightarrow> False | Some t \<Rightarrow> valid_datetime t))"

text \<open>
  Every year that \<open>to_dict\<close> writes has four digits: the platform pads, or the years of the
  issue date and of the scrape time are 1000 or later.
\<close>

definition years_in_full :: "bool \<Rightarrow> Alert \<Rightarrow> bool" where
  "years_in_full pad a =
     (pad \<or> (1000 \<le> year (issue_date a) \<and>
             (case scraped_at a of None \<Rightarrow> True | Some t \<Rightarrow> 1000 \<le> year t)))"

text \<open>\<^verbatim>\<open>datetime\<close> at midnight of the same day: what \<^verbatim>\<open>'%Y-%m-%d'\<close> keeps of a timestamp.\<close>

definition midnight :: "datetime \<Rightarrow> datetime" where
  "midnight d = \<lparr>year = year d, month = month d, day = day d,
                 hour = 0, minute = 0, second = 0, microsecond = 0\<rparr>"

subsection \<open>Library functions in the concrete examples\<close>

text \<open>
  Modelled from the spec: \<^verbatim>\<open>fuzz.ratio\<close> is imported from the package \<^verbatim>\<open>fuzzywuzzy\<close> and is
  not part of the repository. The spec calls it a Levenshtein-style ratio on a scale from 0 to
  100. The package returns 100 for equal strings, 0 when one string is empty, and otherwise
  \<^verbatim>\<open>int(round(100 * r))\<close> for the float \<^verbatim>\<open>r = 2.0 * M / T\<close>, where \<open>T\<close> is the sum of the two
  lengths and \<open>M\<close> counts the matching characters. It has two back ends. With the package
  \<^verbatim>\<open>python-Levenshtein\<close>, \<open>M\<close> is the length of a longest common subsequence (the edit
  distance with insertions and deletions): \<open>fuzz_ratio\<close>. Without it, the matcher of the
  standard library \<^verbatim>\<open>difflib\<close> takes a longest common block, the earliest one in the first
  string and then the earliest in the second, and matches what is left of it and what is
  right of it in the same way: \<open>difflib_ratio\<close> (for strings of fewer than 200 characters,
  where the matcher discards nothing). They instantiate the parameter \<open>ratio\<close> in the
  examples; the general theorems hold for every similarity function.
\<close>

definition score :: "nat \<Rightarrow> nat \<Rightarrow> int" where
  "score M T =
     (case round_double (of_nat (2 * M) / of_nat T) of
        Finite r \<Rightarrow>
          (case float_mul (Finite 100) (Finite r) of
             Finite p \<Rightarrow> round_half_even p
           | _ \<Rightarrow> 0)
      | _ \<Rightarrow> 0)"

fun lcs_length :: "string \<Rightarrow> string \<Rightarrow> nat" where
  "lcs_length [] ys = 0"
| "lcs_length (x # xs) [] = 0"
| "lcs_length (x # xs) (y # ys) =
     (if x = y then Suc (lcs_length xs ys)
      else max (lcs_length (x # xs) ys) (lcs_length xs (y # ys)))"

definition fuzz_ratio :: "string \<Rightarrow> string \<Rightarrow> int" where
  "fuzz_ratio s1 s2 =
     (if s1 = s2 then 100
      else if s1 = [] \<or> s2 = [] then 0
      else score (lcs_length s1 s2) (length s1 + length s2))"

fun common_prefix :: "string \<Rightarrow> string \<Rightarrow> nat" where
  "common_prefix (x # xs) (y # ys) = (if x = y then Suc (common_prefix xs ys) else 0)"
| "common_prefix xs ys = 0"

text \<open>
  \<open>best_in_b xs b j\<close>: the longest block that \<open>xs\<close> starts with somewhere in \<open>b\<close>, as its
  position (counted from \<open>j\<close>) and length, the earliest position winning. \<open>longest_match a b i\<close>:
  the same over the start positions in \<open>a\<close>.
\<close>

fun best_in_b :: "string \<Rightarrow> string \<Rightarrow> nat \<Rightarrow> nat \<times> nat" where
  "best_in_b xs [] j = (j, 0)"
| "best_in_b xs (y # ys) j =
     (let k = common_prefix xs (y # ys); (j', k') = best_in_b xs ys (Suc j)
      in if k' \<le> k then (j, k) else (j', k'))"

fun longest_match :: "string \<Rightarrow> string \<Rightarrow> nat \<Rightarrow> nat \<times> nat \<times> nat" where
  "longest_match [] b i = (i, 0, 0)"
| "longest_match (x # xs) b i =
     (let (j, k) = best_in_b (x # xs) b 0; (i', j', k') = longest_match xs b (Suc i)
      in if k' \<le> k then (i, j, k) else (i', j', k'))"

text \<open>The block found lies inside \<open>a\<close>; the second test of the guard is never true.\<close>

function matching_length :: "string \<Rightarrow> string \<Rightarrow> nat" where
  "matching_length a b =
     (case longest_match a b 0 of
        (i, j, k) \<Rightarrow>
          if k = 0 \<or> length a < i + k then 0
          else k + matching_length (take i a) (take j b)
                 + matching_length (drop (i + k) a) (drop (j + k) b))"
  by pat_completeness auto
termination
  by (relation "measure (\<lambda>(a, b). length a)") auto

declare matching_length.simps [simp del]

definition difflib_ratio :: "string \<Rightarrow> string \<Rightarrow> int" where
  "difflib_ratio s1 s2 =
     (if s1 = s2 then 100
      else if s1 = [] \<or> s2 = [] then 0
      else score (matching_length s1 s2) (length s1 + length s2))"

text \<open>
  Modelled from the spec: the digest \<^verbatim>\<open>hashlib.md5\<close> is not part of the repository; the spec
  asks only for a deterministic content hash. In the examples the parameter \<open>md5\<close> is this
  injective stand-in, which never returns the empty string.
\<close>

definition example_digest :: "string \<Rightarrow> string" where
  "example_digest s = ''md5:'' @ s"

subsection \<open>Alerts of the concrete examples\<close>

definition example_datetime :: "nat \<Rightarrow> nat \<Rightarrow> datetime" where
  "example_datetime d h =
     \<lparr>year = 2025, month = 1, day = d, hour = h, minute = 0, second = 0, microsecond = 0\<rparr>"

text \<open>
  An alert constructed from a reference, a title, a source, a day of January 2025 with an
  hour, and the \<^verbatim>\<open>hash_id\<close> argument (\<open>None\<close> leaves the hash to the constructor), on a
  platform that does not pad the year.
\<close>

definition example_alert ::
  "string \<Rightarrow> string \<Rightarrow> string \<Rightarrow> nat \<Rightarrow> nat \<Rightarrow> string option \<Rightarrow> Alert" where
  "example_alert ref ttl src d h hid =
     new_Alert example_digest False (example_datetime 2 9)
       ref ttl ''MHRA'' (example_datetime d h) ''Issued'' ''Safety alert'' src
       ''https://example.org/alert'' None None hid None None None None None None"

definition example_manager :: DuplicateManager where
  "example_manager = new_DuplicateManager DEFAULT_DUPLICATE_THRESHOLD"

section \<open>The loops are the recursive functions\<close>

lemma add_seen_eq: "add_seen h S = S \<union> {s. s \<noteq> [] \<and> h = Some s}"
  by (auto simp: add_seen_def split: option.splits)

lemma seen_in_iff: "seen_in h S \<longleftrightarrow> (\<exists>s. h = Some s \<and> s \<noteq> [] \<and> s \<in> S)"
  by (auto simp: seen_in_def split: option.splits)

lemma existing_hashes_of_eq:
  "existing_hashes_of xs = {s. s \<noteq> [] \<and> (\<exists>a\<in>set xs. hash_id a = Some s)}"
proof (induction xs)
  case Nil
  show ?case by (simp add: existing_hashes_of_def map_filter_simps)
next
  case (Cons x xs)
  have "existing_hashes_of (x # xs) = add_seen (hash_id x) (existing_hashes_of xs)"
    by (cases "hash_id x") (auto simp: existing_hashes_of_def map_filter_simps add_seen_def)
  with Cons show ?case by (auto simp: add_seen_eq)
qed

lemma existing_references_of_eq:
  "existing_references_of xs = {s. s \<noteq> [] \<and> (\<exists>a\<in>set xs. reference a = s)}"
proof (induction xs)
  case Nil
  show ?case by (simp add: existing_references_of_def map_filter_simps)
next
  case (Cons x xs)
  have "existing_references_of (x # xs) =
          add_seen (Some (reference x)) (existing_references_of xs)"
    by (auto simp: existing_references_of_def map_filter_simps add_seen_def)
  with Cons show ?case by (auto simp: add_seen_eq)
qed

lemma fold_add_step:
  "fold add_step cs (acc, H, R) =
     (acc @ keep_new H R cs,
      H \<union> existing_hashes_of (keep_new H R cs),
      R \<union> existing_references_of (keep_new H R cs))"
proof (induction cs arbitrary: acc H R)
  case Nil
  show ?case by (simp add: existing_hashes_of_eq existing_references_of_eq)
next
  case (Cons c cs)
  show ?case
  proof (cases "seen_in (hash_id c) H \<or> seen_in (Some (reference c)) R")
    case True
    then have "add_step c (acc, H, R) = (acc, H, R)"
      by (auto simp: add_step_def seen_in_def)
    with True Cons.IH show ?thesis by simp
  next
    case False
    then have "add_step c (acc, H, R) =
        (acc @ [c], add_seen (hash_id c) H, add_seen (Some (reference c)) R)"
      by (auto simp: add_step_def seen_in_def)
    with False Cons.IH show ?thesis
      by (auto simp: add_seen_eq existing_hashes_of_eq existing_references_of_eq)
  qed
qed

lemma fold_exact_step:
  "fold exact_step cs (acc, H, R) =
     (acc @ keep_new H R cs,
      H \<union> existing_hashes_of (keep_new H R cs),
      R \<union> existing_references_of (keep_new H R cs))"
proof (induction cs arbitrary: acc H R)
  case Nil
  show ?case by (simp add: existing_hashes_of_eq existing_references_of_eq)
next
  case (Cons c cs)
  show ?case
  proof (cases "seen_in (hash_id c) H \<or> seen_in (Some (reference c)) R")
    case True
    then have "exact_step c (acc, H, R) = (acc, H, R)"
      by (auto simp: exact_step_def seen_in_def)
    with True Cons.IH show ?thesis by simp
  next
    case False
    then have "exact_step c (acc, H, R) =
        (acc @ [c], add_seen (hash_id c) H, add_seen (Some (reference c)) R)"
      by (auto simp: exact_step_def seen_in_def)
    with False Cons.IH show ?thesis
      by (auto simp: add_seen_eq existing_hashes_of_eq existing_references_of_eq)
  qed
qed

lemma unique_alerts_of_keep_new: "unique_alerts_of alerts = keep_new {} {} alerts"
  by (simp add: unique_alerts_of_def fold_exact_step)

lemma alerts_to_add_keep_new:
  "alerts_to_add known cs = keep_new (existing_hashes_of known) (existing_references_of known) cs"
  by (simp add: alerts_to_add_def fold_add_step)

lemma fold_mark_step:
  "fold (mark_step ratio self U i) js P =
     P \<union> {j \<in> set js. is_duplicate ratio self (U ! i) (U ! j)}"
  by (induction js arbitrary: P) (auto simp: mark_step_def)

lemma fold_fuzzy_step:
  "n = length U \<Longrightarrow>
   fst (fold (fuzzy_step ratio self U) [k ..< n] (acc, P)) =
     acc @ keep_first (is_duplicate ratio self) (map ((!) U) (filter (\<lambda>j. j \<notin> P) [k ..< n]))"
proof (induction "n - k" arbitrary: k acc P)
  case 0
  then show ?case by simp
next
  case (Suc m)
  then have kn: "k < n" and m: "m = n - Suc k" by auto
  have upt: "[k ..< n] = k # [Suc k ..< n]" using kn by (simp add: upt_conv_Cons)
  show ?case
  proof (cases "k \<in> P")
    case True
    then have "fuzzy_step ratio self U k (acc, P) = (acc, P)" by (simp add: fuzzy_step_def)
    with True Suc.hyps(1)[OF m Suc.prems, of acc P] upt show ?thesis by simp
  next
    case False
    let ?P' = "P \<union> {j \<in> set [Suc k ..< n]. is_duplicate ratio self (U ! k) (U ! j)}"
    have step: "fuzzy_step ratio self U k (acc, P) = (acc @ [U ! k], ?P')"
      using False Suc.prems by (simp add: fuzzy_step_def fold_mark_step)
    have flt: "filter (\<lambda>j. j \<notin> ?P') [Suc k ..< n] =
               filter (\<lambda>j. \<not> is_duplicate ratio self (U ! k) (U ! j)) (filter (\<lambda>j. j \<notin> P) [Suc k ..< n])"
      by (auto intro: filter_cong)
    show ?thesis
      using False Suc.hyps(1)[OF m Suc.prems, of "acc @ [U ! k]" ?P'] upt step flt
      by (simp add: filter_map comp_def)
  qed
qed

lemma final_unique_alerts_of_keep_first:
  "final_unique_alerts_of ratio self U = keep_first (is_duplicate ratio self) U"
  using fold_fuzzy_step[of "length U" U ratio self 0 "[]" "{}"]
  by (simp add: final_unique_alerts_of_def map_nth)

lemma remove_duplicates_eq:
  "remove_duplicates ratio self alerts =
     keep_first (is_duplicate ratio self) (keep_new {} {} alerts)"
  by (simp add: remove_duplicates_def final_unique_alerts_of_keep_first unique_alerts_of_keep_new)


lemma subseq_keep_new: "subseq (keep_new H R xs) xs"
  by (induction xs arbitrary: H R) auto

lemma set_keep_first: "set (keep_first dup xs) \<subseteq> set xs"
  by (induction dup xs rule: keep_first.induct) auto

lemma subseq_keep_first: "subseq (keep_first dup xs) xs"
proof (induction dup xs rule: keep_first.induct)
  case (1 dup)
  show ?case by simp
next
  case (2 dup x xs)
  have "subseq (filter (\<lambda>y. \<not> dup x y) xs) xs" by simp
  with 2 have "subseq (keep_first dup (filter (\<lambda>y. \<not> dup x y) xs)) xs"
    by (rule subseq_order.trans)
  then show ?case by simp
qed

lemma sorted_wrt_keep_first: "sorted_wrt (\<lambda>a b. \<not> dup a b) (keep_first dup xs)"
proof (induction dup xs rule: keep_first.induct)
  case (1 dup)
  show ?case by simp
next
  case (2 dup x xs)
  have "set (keep_first dup (filter (\<lambda>y. \<not> dup x y) xs)) \<subseteq> {y \<in> set xs. \<not> dup x y}"
    using set_keep_first[of dup "filter (\<lambda>y. \<not> dup x y) xs"] by auto
  with 2 show ?case by auto
qed

lemma keep_first_id: "sorted_wrt (\<lambda>a b. \<not> dup a b) xs \<Longrightarrow> keep_first dup xs = xs"
proof (induction xs)
  case Nil
  show ?case by simp
next
  case (Cons x xs)
  then have "filter (\<lambda>y. \<not> dup x y) xs = xs" by (auto intro: filter_True)
  with Cons show ?case by simp
qed

lemma keep_first_snoc:
  "keep_first dup (xs @ [b]) =
     keep_first dup xs @ (if \<exists>a\<in>set (keep_first dup xs). dup a b then [] else [b])"
proof (induction dup xs rule: keep_first.induct)
  case (1 dup)
  show ?case by simp
next
  case (2 dup x xs)
  show ?case
  proof (cases "dup x b")
    case True
    then show ?thesis by simp
  next
    case False
    with 2 show ?thesis by simp
  qed
qed

lemma keep_new_snoc:
  "keep_new H R (xs @ [b]) =
     keep_new H R xs @
       (if seen_in (hash_id b) (H \<union> existing_hashes_of (keep_new H R xs)) \<or>
           seen_in (Some (reference b)) (R \<union> existing_references_of (keep_new H R xs))
        then [] else [b])"
proof (induction xs arbitrary: H R)
  case Nil
  show ?case by (simp add: existing_hashes_of_eq existing_references_of_eq)
next
  case (Cons x xs)
  show ?case
  proof (cases "seen_in (hash_id x) H \<or> seen_in (Some (reference x)) R")
    case True
    with Cons show ?thesis by simp
  next
    case False
    have "add_seen (hash_id x) H \<union> existing_hashes_of K = H \<union> existing_hashes_of (x # K)"
         "add_seen (Some (reference x)) R \<union> existing_references_of K
            = R \<union> existing_references_of (x # K)" for K
      by (auto simp: add_seen_eq existing_hashes_of_eq existing_references_of_eq)
    with False Cons[of "add_seen (hash_id x) H" "add_seen (Some (reference x)) R"]
    show ?thesis by simp
  qed
qed

lemma is_duplicate_reference:
  "reference a \<noteq> [] \<Longrightarrow> reference a = reference b \<Longrightarrow> is_duplicate ratio self a b"
  by (simp add: is_duplicate_def)

lemma is_duplicate_hash:
  "truthy (hash_id a) \<Longrightarrow> hash_id a = hash_id b \<Longrightarrow> is_duplicate ratio self a b"
  by (simp add: is_duplicate_def)

lemma keep_new_id:
  "sorted_wrt (\<lambda>a b. \<not> is_duplicate ratio self a b) xs \<Longrightarrow>
   \<forall>x\<in>set xs. \<not> seen_in (hash_id x) H \<and> \<not> seen_in (Some (reference x)) R \<Longrightarrow>
   keep_new H R xs = xs"
proof (induction xs arbitrary: H R)
  case Nil
  show ?case by simp
next
  case (Cons x xs)
  have nd: "\<forall>y\<in>set xs. \<not> is_duplicate ratio self x y" using Cons.prems(1) by simp
  have "\<forall>y\<in>set xs. \<not> seen_in (hash_id y) (add_seen (hash_id x) H) \<and>
                    \<not> seen_in (Some (reference y)) (add_seen (Some (reference x)) R)"
  proof
    fix y assume y: "y \<in> set xs"
    from nd y have "\<not> is_duplicate ratio self x y" by simp
    then have "\<not> (truthy (hash_id x) \<and> hash_id x = hash_id y)"
              "\<not> (reference x \<noteq> [] \<and> reference x = reference y)"
      using is_duplicate_hash is_duplicate_reference by blast+
    moreover from Cons.prems(2) y
    have "\<not> seen_in (hash_id y) H" "\<not> seen_in (Some (reference y)) R" by simp_all
    ultimately show "\<not> seen_in (hash_id y) (add_seen (hash_id x) H) \<and>
                    \<not> seen_in (Some (reference y)) (add_seen (Some (reference x)) R)"
      by (auto simp: seen_in_iff add_seen_eq)
  qed
  moreover have "sorted_wrt (\<lambda>a b. \<not> is_duplicate ratio self a b) xs"
    using Cons.prems(1) by simp
  ultimately have "keep_new (add_seen (hash_id x) H) (add_seen (Some (reference x)) R) xs = xs"
    by (rule Cons.IH[rotated])
  with Cons.prems(2) show ?case by simp
qed

section \<open>More about the recursive forms\<close>

lemma keep_new_all_seen:
  "\<forall>c\<in>set cs. seen_in (hash_id c) H \<or> seen_in (Some (reference c)) R \<Longrightarrow> keep_new H R cs = []"
  by (induction cs) auto

lemma keep_new_covers:
  "c \<in> set cs \<Longrightarrow> truthy (hash_id c) \<or> reference c \<noteq> [] \<Longrightarrow>
   seen_in (hash_id c) (H \<union> existing_hashes_of (keep_new H R cs)) \<or>
   seen_in (Some (reference c)) (R \<union> existing_references_of (keep_new H R cs))"
proof (induction cs arbitrary: H R)
  case Nil
  then show ?case by simp
next
  case (Cons x xs)
  let ?H' = "add_seen (hash_id x) H" and ?R' = "add_seen (Some (reference x)) R"
  have ext: "?H' \<union> existing_hashes_of K = H \<union> existing_hashes_of (x # K)"
            "?R' \<union> existing_references_of K = R \<union> existing_references_of (x # K)" for K
    by (auto simp: add_seen_eq existing_hashes_of_eq existing_references_of_eq)
  show ?case
  proof (cases "seen_in (hash_id x) H \<or> seen_in (Some (reference x)) R")
    case True
    show ?thesis
    proof (cases "c = x")
      case True
      with \<open>seen_in (hash_id x) H \<or> seen_in (Some (reference x)) R\<close> show ?thesis
        by (auto simp: seen_in_iff)
    next
      case False
      with Cons.prems have "c \<in> set xs" by simp
      from Cons.IH[OF this Cons.prems(2), of H R] True show ?thesis by simp
    qed
  next
    case False
    show ?thesis
    proof (cases "c = x")
      case True
      with False Cons.prems(2) show ?thesis
        by (cases "hash_id x")
           (auto simp: seen_in_iff existing_hashes_of_eq existing_references_of_eq)
    next
      case cx: False
      with Cons.prems have "c \<in> set xs" by simp
      from Cons.IH[OF this Cons.prems(2), of ?H' ?R'] False show ?thesis
        by (simp add: ext)
    qed
  qed
qed

lemma keep_new_idem: "keep_new H R (keep_new H R cs) = keep_new H R cs"
  by (induction cs arbitrary: H R) auto

lemma existing_hashes_of_append:
  "existing_hashes_of (xs @ ys) = existing_hashes_of xs \<union> existing_hashes_of ys"
  by (auto simp: existing_hashes_of_eq)

lemma existing_references_of_append:
  "existing_references_of (xs @ ys) = existing_references_of xs \<union> existing_references_of ys"
  by (auto simp: existing_references_of_eq)

lemma alerts_to_add_snoc:
  "alerts_to_add existing_alerts (new_alerts @ [alert]) =
     alerts_to_add existing_alerts new_alerts @
       (if seen_in (hash_id alert)
             (existing_hashes_of (existing_alerts @ alerts_to_add existing_alerts new_alerts)) \<or>
           seen_in (Some (reference alert))
             (existing_references_of (existing_alerts @ alerts_to_add existing_alerts new_alerts))
        then [] else [alert])"
  by (simp add: alerts_to_add_keep_new keep_new_snoc existing_hashes_of_append
        existing_references_of_append)

lemma seen_unique_iff:
  "seen_in (hash_id b) (existing_hashes_of U) \<longleftrightarrow>
     (\<exists>u\<in>set U. truthy (hash_id b) \<and> hash_id u = hash_id b)"
  "seen_in (Some (reference b)) (existing_references_of U) \<longleftrightarrow>
     (\<exists>u\<in>set U. reference b \<noteq> [] \<and> reference u = reference b)"
  by (cases "hash_id b"; auto simp: seen_in_iff existing_hashes_of_eq existing_references_of_eq)+

lemma example_sets:
  "existing_hashes_of [] = {}" "existing_references_of [] = {}"
  "existing_hashes_of (a # xs) = add_seen (hash_id a) (existing_hashes_of xs)"
  "existing_references_of (a # xs) = add_seen (Some (reference a)) (existing_references_of xs)"
  by (auto simp: existing_hashes_of_eq existing_references_of_eq add_seen_eq)


section \<open>Dates: parsing what was formatted\<close>

lemma of_char_digit: "(of_char (digit n) :: nat) = 48 + n mod 10"
proof -
  have "(48 + n mod 10) mod 256 = 48 + n mod 10" by simp
  then show ?thesis by (simp add: digit_def)
qed

lemma digit_facts [simp]:
  "is_digit (digit n)" "digit_value (digit n) = n mod 10"
  "\<not> is_space (digit n)"
proof -
  have "n mod 10 < 10" by simp
  then show "\<not> is_space (digit n)"
    by (simp add: is_space_def of_char_digit) arith
qed (simp_all add: is_digit_def digit_value_def of_char_digit)

lemma digit_neq [simp]:
  "digit n \<noteq> CHR ''-''" "digit n \<noteq> CHR '':''" "digit n \<noteq> CHR '' ''"
proof -
  have "(of_char (digit n) :: nat) \<noteq> of_char c \<Longrightarrow> digit n \<noteq> c" for c by auto
  then show "digit n \<noteq> CHR ''-''" "digit n \<noteq> CHR '':''" "digit n \<noteq> CHR '' ''"
    by (simp_all add: of_char_digit)
qed

lemma is_space_blank [simp]: "is_space CHR '' ''"
  by (simp add: is_space_def)

lemma dec4: "n < 10000 \<Longrightarrow> 10 * (10 * (10 * (n div 1000 mod 10) + n div 100 mod 10) + n div 10 mod 10) + n mod 10 = (n::nat)"
proof -
  assume "n < 10000"
  then have a: "n div 1000 mod 10 = n div 1000" by (simp add: less_mult_imp_div_less)
  have e1: "n div 100 div 10 = n div 1000" and e2: "n div 10 div 10 = n div 100"
    by (simp_all add: div_mult2_eq[symmetric])
  have b: "10 * (n div 100 div 10) + n div 100 mod 10 = n div 100"
    by (rule mult_div_mod_eq)
  have c: "10 * (n div 10 div 10) + n div 10 mod 10 = n div 10"
    by (rule mult_div_mod_eq)
  have d: "10 * (n div 10) + n mod 10 = n" by (rule mult_div_mod_eq)
  show ?thesis using b c d unfolding e1 e2 by (simp only: a)
qed

lemma dec2: "n < 100 \<Longrightarrow> 10 * (n div 10 mod 10) + n mod 10 = (n::nat)"
proof -
  assume "n < 100"
  then have a: "n div 10 mod 10 = n div 10" by (simp add: less_mult_imp_div_less)
  have d: "10 * (n div 10) + n mod 10 = n" by (rule mult_div_mod_eq)
  show ?thesis using d by (simp only: a)
qed

lemma number_pad2: "n < 100 \<Longrightarrow> number (pad2 n) = n"
  using dec2[of n] by (simp add: number_def pad2_def)

lemma number_pad4: "n < 10000 \<Longrightarrow> number (pad4 n) = n"
  using dec4[of n] by (simp add: number_def pad4_def)

lemma field2_pad2: "lo \<le> n \<Longrightarrow> n \<le> hi \<Longrightarrow> n < 100 \<Longrightarrow> field2 lo hi (pad2 n) = Some n"
  using number_pad2[of n] by (simp add: field2_def) (simp add: pad2_def)

lemma day_field_pad2: "1 \<le> n \<Longrightarrow> n \<le> 31 \<Longrightarrow> day_field (pad2 n) = Some n"
  using field2_pad2[of 1 n 31] by (simp add: day_field_def) (simp add: pad2_def)

lemma days_in_month_le: "days_in_month y m \<le> 31"
  by (simp add: days_in_month_def)

lemma pad_shapes:
  "pad2 n = [digit (n div 10), digit n]"
  "pad4 n = [digit (n div 1000), digit (n div 100), digit (n div 10), digit n]"
  by (simp_all add: pad2_def pad4_def)

lemma split_at_token:
  "c \<notin> set tok \<Longrightarrow> split_at c (tok @ c # rest) = Some (tok, rest)"
proof -
  assume "c \<notin> set tok"
  then have n: "\<And>x. x \<in> set tok \<Longrightarrow> x \<noteq> c" by auto
  have "takeWhile (\<lambda>x. x \<noteq> c) (tok @ c # rest) = tok"
    using n by (simp add: takeWhile_append2)
  moreover have "dropWhile (\<lambda>x. x \<noteq> c) (tok @ c # rest) = c # rest"
    using n by (simp add: dropWhile_append2)
  ultimately show ?thesis by (simp add: split_at_def)
qed

lemma dec3: "n < 1000 \<Longrightarrow> 10 * (10 * (n div 100 mod 10) + n div 10 mod 10) + n mod 10 = (n::nat)"
proof -
  assume "n < 1000"
  then have a: "n div 100 mod 10 = n div 100" by (simp add: less_mult_imp_div_less)
  have e: "n div 10 div 10 = n div 100" by (simp add: div_mult2_eq[symmetric])
  have c: "10 * (n div 10 div 10) + n div 10 mod 10 = n div 10"
    by (rule mult_div_mod_eq)
  have d: "10 * (n div 10) + n mod 10 = n" by (rule mult_div_mod_eq)
  show ?thesis using c d unfolding e by (simp only: a)
qed

lemma number_year_text: "n < 10000 \<Longrightarrow> number (year_text pad n) = n"
  using dec2[of n] dec3[of n] number_pad4[of n]
  by (auto simp: year_text_def number_def)

lemma set_pad [simp]:
  "CHR ''-'' \<notin> set (pad2 n)" "CHR '':'' \<notin> set (pad2 n)" "CHR ''-'' \<notin> set (pad4 n)"
  "CHR ''-'' \<notin> set (year_text pad n)"
  by (simp_all add: pad_shapes year_text_def eq_commute[of "CHR ''-''"]
        eq_commute[of "CHR '':''"])

lemma split_day_pad2:
  "split_day (pad2 n @ CHR '' '' # pad2 h @ rest) = Some (pad2 n, pad2 h @ rest)"
  by (simp add: split_day_def pad_shapes)

lemma year_field_pad4: "n < 10000 \<Longrightarrow> year_field (pad4 n) = Some n"
  using number_pad4[of n] by (simp add: year_field_def) (simp add: pad_shapes)

lemma year_field_year_text:
  "pad \<or> 1000 \<le> n \<Longrightarrow> n < 10000 \<Longrightarrow> year_field (year_text pad n) = Some n"
  by (auto simp: year_text_def year_field_pad4)

lemma year_field_short: "\<not> pad \<Longrightarrow> n < 1000 \<Longrightarrow> year_field (year_text pad n) = None"
  by (simp add: year_text_def year_field_def)

lemma strptime_hms_pad:
  "h < 24 \<Longrightarrow> mi < 60 \<Longrightarrow> sec < 60 \<Longrightarrow>
   strptime_hms (pad2 h @ CHR '':'' # pad2 mi @ CHR '':'' # pad2 sec) = Some (h, mi, sec)"
  by (simp add: strptime_hms_def split_at_token field2_pad2)

lemma valid_datetime_bounds:
  assumes "valid_datetime d"
  shows "year d < 10000" "1 \<le> month d" "month d \<le> 12" "1 \<le> day d" "day d \<le> 31"
    "hour d < 24" "minute d < 60" "second d < 60"
  using assms days_in_month_le[of "year d" "month d"] by (auto simp: valid_datetime_def)

lemma strptime_ymd_parts:
  assumes "valid_datetime d"
  shows "strptime_ymd (strftime_ymd pad d) =
           (case year_field (year_text pad (year d)) of
              None \<Rightarrow> None | Some y \<Rightarrow> make_datetime y (month d) (day d) 0 0 0)"
  using valid_datetime_bounds[OF assms]
  by (simp add: strptime_ymd_def strftime_ymd_def split_at_token field2_pad2 day_field_pad2
        split: option.splits)

lemma strptime_ymd_hms_parts:
  assumes "valid_datetime d"
  shows "strptime_ymd_hms (strftime_ymd_hms pad d) =
           (case year_field (year_text pad (year d)) of
              None \<Rightarrow> None
            | Some y \<Rightarrow> make_datetime y (month d) (day d) (hour d) (minute d) (second d))"
  using valid_datetime_bounds[OF assms]
  by (simp add: strptime_ymd_hms_def strftime_ymd_hms_def strftime_ymd_def split_at_token
        split_day_pad2 field2_pad2 day_field_pad2 strptime_hms_pad split: option.splits)

lemma strptime_strftime_ymd:
  assumes "valid_datetime d" "pad \<or> 1000 \<le> year d"
  shows "strptime_ymd (strftime_ymd pad d) = Some (midnight d)"
proof -
  have v: "make_datetime (year d) (month d) (day d) 0 0 0 = Some (midnight d)"
    using assms(1) by (simp add: make_datetime_def valid_datetime_def midnight_def)
  show ?thesis
    using valid_datetime_bounds(1)[OF assms(1)] assms(2)
    by (simp add: strptime_ymd_parts[OF assms(1)] year_field_year_text v)
qed

lemma strptime_strftime_ymd_short:
  assumes "valid_datetime d" "\<not> pad" "year d < 1000"
  shows "strptime_ymd (strftime_ymd pad d) = None"
  using assms(2,3) by (simp add: strptime_ymd_parts[OF assms(1)] year_field_short)

lemma strptime_strftime_ymd_hms:
  assumes "valid_datetime d" "pad \<or> 1000 \<le> year d"
  shows "strptime_ymd_hms (strftime_ymd_hms pad d) = Some (d\<lparr>microsecond := 0\<rparr>)"
proof -
  have v: "make_datetime (year d) (month d) (day d) (hour d) (minute d) (second d)
             = Some (d\<lparr>microsecond := 0\<rparr>)"
    using assms(1) by (simp add: make_datetime_def valid_datetime_def)
  show ?thesis
    using valid_datetime_bounds(1)[OF assms(1)] assms(2)
    by (simp add: strptime_ymd_hms_parts[OF assms(1)] year_field_year_text v)
qed

lemma strptime_strftime_ymd_hms_short:
  assumes "valid_datetime d" "\<not> pad" "year d < 1000"
  shows "strptime_ymd_hms (strftime_ymd_hms pad d) = None"
  using assms(2,3) by (simp add: strptime_ymd_hms_parts[OF assms(1)] year_field_short)

lemma strftime_ymd_inj:
  assumes "valid_datetime d" "valid_datetime d'" "strftime_ymd pad d = strftime_ymd pad d'"
  shows "date d = date d'"
proof -
  have s: "split_at CHR ''-'' (strftime_ymd pad x)
             = Some (year_text pad (year x), pad2 (month x) @ CHR ''-'' # pad2 (day x))" for x
    by (simp add: strftime_ymd_def split_at_token)
  from assms(3) s[of d] s[of d']
  have y: "year_text pad (year d) = year_text pad (year d')"
    and r: "pad2 (month d) @ CHR ''-'' # pad2 (day d) = pad2 (month d') @ CHR ''-'' # pad2 (day d')"
    by simp_all
  from y have "number (year_text pad (year d)) = number (year_text pad (year d'))" by simp
  then have 1: "year d = year d'"
    using valid_datetime_bounds(1)[OF assms(1)] valid_datetime_bounds(1)[OF assms(2)]
    by (simp add: number_year_text)
  from r have "pad2 (month d) = pad2 (month d')" "pad2 (day d) = pad2 (day d')"
    by (simp_all add: pad_shapes)
  then have "number (pad2 (month d)) = number (pad2 (month d'))"
            "number (pad2 (day d)) = number (pad2 (day d'))" by simp_all
  then have 2: "month d = month d'" "day d = day d'"
    using valid_datetime_bounds[OF assms(1)] valid_datetime_bounds[OF assms(2)]
    by (simp_all add: number_pad2)
  from 1 2 show ?thesis by (simp add: date_def)
qed

lemma strftime_nonempty [simp]: "strftime_ymd pad d \<noteq> []" "strftime_ymd_hms pad d \<noteq> []"
  by (simp_all add: strftime_ymd_def strftime_ymd_hms_def)

lemma to_dict_get:
  "get_or (to_dict pad a) ''Reference'' [] = reference a"
  "get_or (to_dict pad a) ''Title'' [] = title a"
  "get_or (to_dict pad a) ''Originator'' [] = originator a"
  "get_or (to_dict pad a) ''Issue Date'' [] = strftime_ymd pad (issue_date a)"
  "get_or (to_dict pad a) ''Status'' [] = status a"
  "get_or (to_dict pad a) ''Alert Type'' [] = alert_type a"
  "get_or (to_dict pad a) ''Source'' [] = source a"
  "get_or (to_dict pad a) ''URL'' [] = url a"
  "get_or (to_dict pad a) ''Scraped At'' []
     = (case scraped_at a of None \<Rightarrow> [] | Some t \<Rightarrow> strftime_ymd_hms pad t)"
  "to_dict pad a ''Hash ID'' = hash_id a"
  by (simp_all add: to_dict_def get_or_def)

lemma new_Alert_fields:
  "reference (new_Alert md5 pad now r t orig idate st atype src u ms sa hid ac bc ai aud acd att) = r"
  "title (new_Alert md5 pad now r t orig idate st atype src u ms sa hid ac bc ai aud acd att) = t"
  "originator (new_Alert md5 pad now r t orig idate st atype src u ms sa hid ac bc ai aud acd att)
     = orig"
  "issue_date (new_Alert md5 pad now r t orig idate st atype src u ms sa hid ac bc ai aud acd att)
     = idate"
  "status (new_Alert md5 pad now r t orig idate st atype src u ms sa hid ac bc ai aud acd att) = st"
  "alert_type (new_Alert md5 pad now r t orig idate st atype src u ms sa hid ac bc ai aud acd att)
     = atype"
  "source (new_Alert md5 pad now r t orig idate st atype src u ms sa hid ac bc ai aud acd att) = src"
  "url (new_Alert md5 pad now r t orig idate st atype src u ms sa hid ac bc ai aud acd att) = u"
  "scraped_at (new_Alert md5 pad now r t orig idate st atype src u ms sa hid ac bc ai aud acd att)
     = (case sa of None \<Rightarrow> Some now | Some x \<Rightarrow> Some x)"
  "hash_id (new_Alert md5 pad now r t orig idate st atype src u ms sa hid ac bc ai aud acd att)
     = (case hid of
          None \<Rightarrow> Some (md5 (r @ ''|'' @ t @ ''|'' @ orig @ ''|'' @ strftime_ymd pad idate))
        | Some h \<Rightarrow> Some h)"
  by (cases sa; cases hid;
      simp add: new_Alert_def post_init_def generate_hash_def hash_content_def Let_def)+


section \<open>The alerts of the examples\<close>

lemma example_alert_fields:
  "reference (example_alert r t s d h hid) = r"
  "title (example_alert r t s d h hid) = t"
  "source (example_alert r t s d h hid) = s"
  "issue_date (example_alert r t s d h hid) = example_datetime d h"
  "hash_id (example_alert r t s d h None)
     = Some (''md5:'' @ r @ ''|'' @ t @ ''|MHRA|'' @ strftime_ymd False (example_datetime d h))"
  "hash_id (example_alert r t s d h (Some x)) = Some x"
  by (simp_all add: example_alert_def new_Alert_def post_init_def generate_hash_def
        hash_content_def example_digest_def Let_def)

lemma strftime_example: "strftime_ymd pad (example_datetime 15 h) = ''2025-01-15''"
  by (simp add: strftime_ymd_def year_text_def example_datetime_def pad4_def pad2_def digit_def
        char_of_eq_iff)

lemma date_example: "date (example_datetime d h) = (2025, 1, d)"
  by (simp add: date_def example_datetime_def)

text \<open>
  The default threshold is not 85/100, which is no double, and its product with 100 is
  nevertheless exactly 85. Other thresholds behave differently: the product for 0.55 lies
  above 55, so a score of 55 does not reach it.
\<close>

lemma default_cutoff: "float_mul DEFAULT_DUPLICATE_THRESHOLD (Finite 100) = Finite 85"
  by code_simp

lemma default_threshold_value:
  "DEFAULT_DUPLICATE_THRESHOLD = Finite (7656119366529843 / 2 ^ 53)"
  "DEFAULT_DUPLICATE_THRESHOLD \<noteq> Finite (85 / 100)"
  by (simp add: DEFAULT_DUPLICATE_THRESHOLD_def, code_simp)
     (simp add: DEFAULT_DUPLICATE_THRESHOLD_def, code_simp)

lemma cutoff_above_55:
  "float_mul (round_double (55 / 100)) (Finite 100) = Finite (55 + 1 / 2 ^ 47)"
  "\<not> int_ge_float 55 (float_mul (round_double (55 / 100)) (Finite 100))"
  by code_simp+

lemma example_threshold:
  "duplicate_threshold example_manager = DEFAULT_DUPLICATE_THRESHOLD"
  by (simp add: example_manager_def new_DuplicateManager_def)

lemma threshold_example:
  "float_mul (duplicate_threshold example_manager) (Finite 100) = Finite 85"
  by (simp only: example_threshold default_cutoff)

lemma ratio_examples:
  "fuzz_ratio (lower ''Recall 1A'') (lower ''Recall 1BC'') = 84"
  "fuzz_ratio (lower ''Alert 2025/01'') (lower ''Alert 2025/23'') = 85"
  "fuzz_ratio (lower ''Alert 2025/23'') (lower ''Alert 2025/01'') = 85"
  "fuzz_ratio (lower ''Device recall - urgent'') (lower ''Device recall - urgent'') = 100"
  "fuzz_ratio (lower ''Device recall - urgent'') (lower ''Device recall - urgent!'') = 98"
  by code_simp+

lemma difflib_examples:
  "difflib_ratio (lower ''Lot 1 21'') (lower ''Lot 21 1'') = 88"
  "difflib_ratio (lower ''Lot 21 1'') (lower ''Lot 1 21'') = 75"
  by code_simp+

lemmas example_simps = example_alert_fields strftime_example date_example threshold_example
  ratio_examples is_duplicate_def

lemma example_remove:
  "remove_duplicates fuzz_ratio example_manager
     [example_alert ''X1'' ''Device recall'' ''CAS'' 15 0 None,
      example_alert ''X1'' ''Device recall - urgent'' ''GOVUK'' 15 0 None,
      example_alert [] ''Device recall - urgent'' ''GOVUK'' 15 0 None]
   = [example_alert ''X1'' ''Device recall'' ''CAS'' 15 0 None,
      example_alert [] ''Device recall - urgent'' ''GOVUK'' 15 0 None]"
  by (simp add: remove_duplicates_eq example_simps seen_in_def add_seen_def)

lemma lcs_length_commute: "lcs_length xs ys = lcs_length ys xs"
  by (induction xs ys rule: lcs_length.induct) (auto simp: max.commute, (case_tac ys, auto)+)

lemma fuzz_ratio_commute: "fuzz_ratio s t = fuzz_ratio t s"
  by (auto simp: fuzz_ratio_def lcs_length_commute[of s t] add.commute)

section \<open>The duplicate test\<close>

text \<open>
  C1. \<open>is_duplicate a b\<close> is true exactly when one of the three rules holds: the reference
  of \<open>a\<close> is non-empty and equals that of \<open>b\<close>; or the sources are equal, the similarity of
  the lower-cased titles is at least the float product of the threshold and 100, and the issue
  dates fall on the same day; or the hash of \<open>a\<close> is non-empty and equals that of \<open>b\<close>. The
  rules are tried in that order and each answers true, so the first that holds decides. For
  the default threshold, the double nearest to 0.85, the product is exactly 85: the test of
  the second rule is then that the score is at least 85. So two alerts of the same source and
  day whose titles score 85 are duplicates, and when the titles score 84 the second rule does
  not make them duplicates: they are duplicates exactly when the first or the third rule
  holds.
\<close>

theorem is_duplicate_rules:
  "(is_duplicate ratio self a b \<longleftrightarrow>
      (reference a \<noteq> [] \<and> reference a = reference b) \<or>
      (source a = source b \<and>
       int_ge_float (ratio (lower (title a)) (lower (title b)))
         (float_mul (duplicate_threshold self) (Finite 100)) \<and>
       date (issue_date a) = date (issue_date b)) \<or>
      (truthy (hash_id a) \<and> hash_id a = hash_id b)) \<and>
   DEFAULT_DUPLICATE_THRESHOLD = round_double (85 / 100) \<and>
   float_mul DEFAULT_DUPLICATE_THRESHOLD (Finite 100) = Finite 85 \<and>
   (duplicate_threshold self = DEFAULT_DUPLICATE_THRESHOLD \<longrightarrow>
      (int_ge_float s (float_mul (duplicate_threshold self) (Finite 100)) \<longleftrightarrow> 85 \<le> s)) \<and>
   (duplicate_threshold self = DEFAULT_DUPLICATE_THRESHOLD \<and> source a = source b \<and>
    date (issue_date a) = date (issue_date b) \<longrightarrow>
      (ratio (lower (title a)) (lower (title b)) = 85 \<longrightarrow> is_duplicate ratio self a b) \<and>
      (ratio (lower (title a)) (lower (title b)) = 84 \<longrightarrow>
         (is_duplicate ratio self a b \<longleftrightarrow>
            (reference a \<noteq> [] \<and> reference a = reference b) \<or>
            (truthy (hash_id a) \<and> hash_id a = hash_id b))))"
proof -
  have rules: "is_duplicate ratio self a b \<longleftrightarrow>
      (reference a \<noteq> [] \<and> reference a = reference b) \<or>
      (source a = source b \<and>
       int_ge_float (ratio (lower (title a)) (lower (title b)))
         (float_mul (duplicate_threshold self) (Finite 100)) \<and>
       date (issue_date a) = date (issue_date b)) \<or>
      (truthy (hash_id a) \<and> hash_id a = hash_id b)"
    by (auto simp: is_duplicate_def)
  have cut: "int_ge_float s (float_mul (duplicate_threshold self) (Finite 100)) \<longleftrightarrow> 85 \<le> s"
    if "duplicate_threshold self = DEFAULT_DUPLICATE_THRESHOLD" for s
    using that by (simp add: default_cutoff)
  show ?thesis
    using rules cut default_cutoff by (auto simp: DEFAULT_DUPLICATE_THRESHOLD_def)
qed

theorem is_duplicate_rules_witness:
  "duplicate_threshold example_manager = DEFAULT_DUPLICATE_THRESHOLD \<and>
   fuzz_ratio (lower ''Alert 2025/01'') (lower ''Alert 2025/23'') = 85 \<and>
   is_duplicate fuzz_ratio example_manager
     (example_alert [] ''Alert 2025/01'' ''CAS'' 15 0 None)
     (example_alert [] ''Alert 2025/23'' ''CAS'' 15 0 None) \<and>
   fuzz_ratio (lower ''Recall 1A'') (lower ''Recall 1BC'') = 84 \<and>
   \<not> is_duplicate fuzz_ratio example_manager
     (example_alert [] ''Recall 1A'' ''CAS'' 15 0 None)
     (example_alert [] ''Recall 1BC'' ''CAS'' 15 0 None) \<and>
   is_duplicate fuzz_ratio example_manager
     (example_alert ''X1'' ''Recall 1A'' ''CAS'' 15 0 None)
     (example_alert ''X1'' ''Recall 1BC'' ''CAS'' 15 0 None)"
  using
    is_duplicate_rules[of fuzz_ratio example_manager
      "example_alert [] ''Alert 2025/01'' ''CAS'' 15 0 None"
      "example_alert [] ''Alert 2025/23'' ''CAS'' 15 0 None"]
    is_duplicate_rules[of fuzz_ratio example_manager
      "example_alert [] ''Recall 1A'' ''CAS'' 15 0 None"
      "example_alert [] ''Recall 1BC'' ''CAS'' 15 0 None"]
    is_duplicate_rules[of fuzz_ratio example_manager
      "example_alert ''X1'' ''Recall 1A'' ''CAS'' 15 0 None"
      "example_alert ''X1'' ''Recall 1BC'' ''CAS'' 15 0 None"]
  by (simp add: example_threshold example_alert_fields ratio_examples strftime_example
        date_example)

text \<open>
  C9 (as amended). Swapping the two alerts does not change the answer of \<open>is_duplicate\<close>
  when the similarity score of the two lower-cased titles is the same in both orders, nor when
  the sources or the days differ (the first and the third rule are symmetric). The
  Levenshtein-style ratio of the spec scores every pair the same in both orders, so with it
  the test is symmetric for every pair of alerts.
\<close>

theorem is_duplicate_symmetric:
  "(ratio (lower (title a)) (lower (title b)) = ratio (lower (title b)) (lower (title a)) \<longrightarrow>
      is_duplicate ratio self a b = is_duplicate ratio self b a) \<and>
   (source a \<noteq> source b \<or> date (issue_date a) \<noteq> date (issue_date b) \<longrightarrow>
      is_duplicate ratio self a b = is_duplicate ratio self b a) \<and>
   is_duplicate fuzz_ratio self a b = is_duplicate fuzz_ratio self b a"
proof -
  have 1: "is_duplicate r self a b = is_duplicate r self b a"
    if "r (lower (title a)) (lower (title b)) = r (lower (title b)) (lower (title a))" for r
    using that by (cases "hash_id a"; cases "hash_id b") (auto simp: is_duplicate_def)
  have 2: "is_duplicate ratio self a b = is_duplicate ratio self b a"
    if "source a \<noteq> source b \<or> date (issue_date a) \<noteq> date (issue_date b)"
    using that by (cases "hash_id a"; cases "hash_id b") (auto simp: is_duplicate_def)
  show ?thesis using 1 2 fuzz_ratio_commute by blast
qed

theorem is_duplicate_symmetric_witness:
  "fuzz_ratio (lower ''Alert 2025/01'') (lower ''Alert 2025/23'')
     = fuzz_ratio (lower ''Alert 2025/23'') (lower ''Alert 2025/01'') \<and>
   is_duplicate fuzz_ratio example_manager
     (example_alert [] ''Alert 2025/01'' ''CAS'' 15 0 None)
     (example_alert [] ''Alert 2025/23'' ''CAS'' 15 0 None) \<and>
   is_duplicate fuzz_ratio example_manager
     (example_alert [] ''Alert 2025/23'' ''CAS'' 15 0 None)
     (example_alert [] ''Alert 2025/01'' ''CAS'' 15 0 None) \<and>
   source (example_alert [] ''Lot 1 21'' ''CAS'' 15 0 None)
     \<noteq> source (example_alert [] ''Lot 21 1'' ''GOVUK'' 15 0 None) \<and>
   is_duplicate difflib_ratio example_manager
     (example_alert [] ''Lot 1 21'' ''CAS'' 15 0 None)
     (example_alert [] ''Lot 21 1'' ''GOVUK'' 15 0 None)
   = is_duplicate difflib_ratio example_manager
     (example_alert [] ''Lot 21 1'' ''GOVUK'' 15 0 None)
     (example_alert [] ''Lot 1 21'' ''CAS'' 15 0 None)"
proof -
  let ?G = "example_alert [] ''Alert 2025/01'' ''CAS'' 15 0 None"
  let ?H = "example_alert [] ''Alert 2025/23'' ''CAS'' 15 0 None"
  let ?P = "example_alert [] ''Lot 1 21'' ''CAS'' 15 0 None"
  let ?Q = "example_alert [] ''Lot 21 1'' ''GOVUK'' 15 0 None"
  have r: "fuzz_ratio (lower ''Alert 2025/01'') (lower ''Alert 2025/23'')
     = fuzz_ratio (lower ''Alert 2025/23'') (lower ''Alert 2025/01'')"
    by (simp add: ratio_examples)
  have g: "is_duplicate fuzz_ratio example_manager ?G ?H" by (simp add: example_simps)
  have s: "source ?P \<noteq> source ?Q" by (simp add: example_alert_fields)
  from is_duplicate_symmetric[of fuzz_ratio ?G ?H example_manager] r
  have 1: "is_duplicate fuzz_ratio example_manager ?G ?H
             = is_duplicate fuzz_ratio example_manager ?H ?G"
    by (simp add: example_alert_fields)
  from is_duplicate_symmetric[of difflib_ratio ?P ?Q example_manager] s
  have 2: "is_duplicate difflib_ratio example_manager ?P ?Q
             = is_duplicate difflib_ratio example_manager ?Q ?P"
    by blast
  from r g s 1 2 show ?thesis by simp
qed

text \<open>
  The claim as first stated fails with the \<^verbatim>\<open>difflib\<close> back end of the package, whose score
  depends on the order of its arguments: two alerts of the same source and day with the titles
  \<^verbatim>\<open>Lot 1 21\<close> and \<^verbatim>\<open>Lot 21 1\<close> score 88 in one order and 75 in the other, so the first is a
  duplicate of the second and the second is not a duplicate of the first.
\<close>

theorem is_duplicate_order_counterexample:
  "difflib_ratio (lower ''Lot 1 21'') (lower ''Lot 21 1'') = 88 \<and>
   difflib_ratio (lower ''Lot 21 1'') (lower ''Lot 1 21'') = 75 \<and>
   is_duplicate difflib_ratio example_manager
     (example_alert [] ''Lot 1 21'' ''CAS'' 15 0 None)
     (example_alert [] ''Lot 21 1'' ''CAS'' 15 0 None) \<and>
   \<not> is_duplicate difflib_ratio example_manager
     (example_alert [] ''Lot 21 1'' ''CAS'' 15 0 None)
     (example_alert [] ''Lot 1 21'' ''CAS'' 15 0 None)"
  by (simp add: difflib_examples example_alert_fields strftime_example date_example
        threshold_example is_duplicate_def)

section \<open>The identity hash\<close>

text \<open>
  C2. An alert constructed with \<^verbatim>\<open>hash_id\<close> unset gets as hash the digest of reference, title,
  originator and the issue date as year, month and day, joined by \<^verbatim>\<open>|\<close>; the date is written
  \<^verbatim>\<open>YYYY-MM-DD\<close> (on a platform that does not pad, a year below 1000 has fewer digits).
  Nothing else enters: two constructions that agree on the three strings and on the day of
  the issue date get the same hash, whatever the clock reads and whatever the other fields
  are.
\<close>

theorem hash_deterministic:
  "hash_id (new_Alert md5 pad now ref ttl orig idate st atype src u ms sa None ac bc ai aud acd att)
     = Some (md5 (ref @ ''|'' @ ttl @ ''|'' @ orig @ ''|'' @
                  year_text pad (year idate) @ ''-'' @ pad2 (month idate) @ ''-'' @
                  pad2 (day idate))) \<and>
   (pad \<or> 1000 \<le> year idate \<longrightarrow> year_text pad (year idate) = pad4 (year idate)) \<and>
   (date idate = date idate' \<longrightarrow>
    hash_id (new_Alert md5 pad now ref ttl orig idate st atype src u ms sa None ac bc ai aud acd att)
      = hash_id (new_Alert md5 pad now' ref ttl orig idate' st' atype' src' u' ms' sa' None
                   ac' bc' ai' aud' acd' att'))"
  by (auto simp: new_Alert_fields strftime_ymd_def date_def year_text_def)

theorem hash_deterministic_witness:
  "date (example_datetime 15 0) = date (example_datetime 15 10) \<and>
   hash_id (new_Alert example_digest False (example_datetime 20 8) ''X1'' ''Device recall''
              ''MHRA'' (example_datetime 15 0) ''Issued'' ''Safety alert'' ''CAS'' ''https://a''
              None None None None None None None None None)
     = Some ''md5:X1|Device recall|MHRA|2025-01-15'' \<and>
   hash_id (new_Alert example_digest False (example_datetime 21 9) ''X1'' ''Device recall''
              ''MHRA'' (example_datetime 15 10) ''Withdrawn'' ''Recall'' ''GOVUK'' ''https://b''
              (Some ''Cardiology'') (Some (example_datetime 16 7)) None
              (Some ''x'') None None None None None)
     = Some ''md5:X1|Device recall|MHRA|2025-01-15''"
proof -
  have d: "date (example_datetime 15 0) = date (example_datetime 15 10)"
    by (simp add: date_def example_datetime_def)
  note t = hash_deterministic[of example_digest False "example_datetime 20 8" "''X1''"
      "''Device recall''" "''MHRA''" "example_datetime 15 0" "''Issued''" "''Safety alert''"
      "''CAS''" "''https://a''" None None None None None None None None
      "example_datetime 15 10" "example_datetime 21 9" "''Withdrawn''" "''Recall''" "''GOVUK''"
      "''https://b''" "Some ''Cardiology''" "Some (example_datetime 16 7)" "Some ''x''"
      None None None None None]
  have e: "example_digest (''X1'' @ ''|'' @ ''Device recall'' @ ''|'' @ ''MHRA'' @ ''|'' @
             year_text False (year (example_datetime 15 0)) @ ''-'' @
             pad2 (month (example_datetime 15 0)) @ ''-'' @ pad2 (day (example_datetime 15 0)))
           = ''md5:X1|Device recall|MHRA|2025-01-15''"
    by (simp add: example_digest_def example_datetime_def year_text_def pad4_def pad2_def
          digit_def char_of_eq_iff)
  let ?A1 = "new_Alert example_digest False (example_datetime 20 8) ''X1'' ''Device recall''
              ''MHRA'' (example_datetime 15 0) ''Issued'' ''Safety alert'' ''CAS'' ''https://a''
              None None None None None None None None None"
  let ?A2 = "new_Alert example_digest False (example_datetime 21 9) ''X1'' ''Device recall''
              ''MHRA'' (example_datetime 15 10) ''Withdrawn'' ''Recall'' ''GOVUK'' ''https://b''
              (Some ''Cardiology'') (Some (example_datetime 16 7)) None
              (Some ''x'') None None None None None"
  from t e have 1: "hash_id ?A1 = Some ''md5:X1|Device recall|MHRA|2025-01-15''"
    by (simp only: append_Cons append_Nil)
  from t d have "hash_id ?A1 = hash_id ?A2" by blast
  with 1 have 2: "hash_id ?A2 = Some ''md5:X1|Device recall|MHRA|2025-01-15''" by simp
  from d 1 2 show ?thesis by blast
qed

section \<open>Properties of \<^verbatim>\<open>remove_duplicates\<close>\<close>

text \<open>
  C3 (as amended). In the result of \<open>remove_duplicates\<close>, \<open>is_duplicate\<close> is false for every
  two alerts kept, the earlier one as left argument. An alert appended to the input is dropped
  exactly when its non-empty reference or hash is that of an earlier survivor of the first
  loop, or when an alert kept from the earlier input matches it; otherwise it is kept, and the
  alerts kept before it are not affected. So a kept alert removes every later alert it matches,
  an alert dropped by the first loop removes nothing, and an alert removed in the second loop
  removes nothing in the second loop.
\<close>

theorem remove_duplicates_first_kept_wins:
  "(i < j \<and> j < length (remove_duplicates ratio self alerts) \<longrightarrow>
      \<not> is_duplicate ratio self (remove_duplicates ratio self alerts ! i)
                               (remove_duplicates ratio self alerts ! j)) \<and>
   remove_duplicates ratio self (alerts @ [b]) =
     remove_duplicates ratio self alerts @
       (if (\<exists>u\<in>set (unique_alerts_of alerts). reference b \<noteq> [] \<and> reference u = reference b) \<or>
           (\<exists>u\<in>set (unique_alerts_of alerts). truthy (hash_id b) \<and> hash_id u = hash_id b) \<or>
           (\<exists>a\<in>set (remove_duplicates ratio self alerts). is_duplicate ratio self a b)
        then [] else [b])"
proof
  have "sorted_wrt (\<lambda>a b. \<not> is_duplicate ratio self a b) (remove_duplicates ratio self alerts)"
    by (simp add: remove_duplicates_eq sorted_wrt_keep_first)
  then show "i < j \<and> j < length (remove_duplicates ratio self alerts) \<longrightarrow>
      \<not> is_duplicate ratio self (remove_duplicates ratio self alerts ! i)
                               (remove_duplicates ratio self alerts ! j)"
    by (simp add: sorted_wrt_iff_nth_less)
next
  let ?U = "keep_new {} {} alerts"
  let ?seen = "seen_in (hash_id b) (existing_hashes_of ?U) \<or>
               seen_in (Some (reference b)) (existing_references_of ?U)"
  have "remove_duplicates ratio self (alerts @ [b]) =
          keep_first (is_duplicate ratio self) (?U @ (if ?seen then [] else [b]))"
    by (simp add: remove_duplicates_eq keep_new_snoc)
  also have "\<dots> = keep_first (is_duplicate ratio self) ?U @
          (if ?seen \<or> (\<exists>a\<in>set (keep_first (is_duplicate ratio self) ?U). is_duplicate ratio self a b)
           then [] else [b])"
    by (simp add: keep_first_snoc)
  finally show "remove_duplicates ratio self (alerts @ [b]) =
     remove_duplicates ratio self alerts @
       (if (\<exists>u\<in>set (unique_alerts_of alerts). reference b \<noteq> [] \<and> reference u = reference b) \<or>
           (\<exists>u\<in>set (unique_alerts_of alerts). truthy (hash_id b) \<and> hash_id u = hash_id b) \<or>
           (\<exists>a\<in>set (remove_duplicates ratio self alerts). is_duplicate ratio self a b)
        then [] else [b])"
    unfolding seen_unique_iff remove_duplicates_eq unique_alerts_of_keep_new
    by (simp add: disj_commute disj_left_commute)
qed

theorem remove_duplicates_first_kept_wins_witness:
  "(0::nat) < 1 \<and>
   1 < length (remove_duplicates fuzz_ratio example_manager
     [example_alert ''X1'' ''Device recall'' ''CAS'' 15 0 None,
      example_alert ''X1'' ''Device recall - urgent'' ''GOVUK'' 15 0 None,
      example_alert [] ''Device recall - urgent'' ''GOVUK'' 15 0 None]) \<and>
   \<not> is_duplicate fuzz_ratio example_manager
       (example_alert ''X1'' ''Device recall'' ''CAS'' 15 0 None)
       (example_alert [] ''Device recall - urgent'' ''GOVUK'' 15 0 None) \<and>
   is_duplicate fuzz_ratio example_manager
       (example_alert [] ''Device recall - urgent'' ''GOVUK'' 15 0 None)
       (example_alert [] ''Device recall - urgent!'' ''GOVUK'' 15 0 None) \<and>
   remove_duplicates fuzz_ratio example_manager
     ([example_alert ''X1'' ''Device recall'' ''CAS'' 15 0 None,
       example_alert ''X1'' ''Device recall - urgent'' ''GOVUK'' 15 0 None,
       example_alert [] ''Device recall - urgent'' ''GOVUK'' 15 0 None] @
      [example_alert [] ''Device recall - urgent!'' ''GOVUK'' 15 0 None])
   = [example_alert ''X1'' ''Device recall'' ''CAS'' 15 0 None,
      example_alert [] ''Device recall - urgent'' ''GOVUK'' 15 0 None]"
proof -
  let ?A = "example_alert ''X1'' ''Device recall'' ''CAS'' 15 0 None"
  let ?B = "example_alert ''X1'' ''Device recall - urgent'' ''GOVUK'' 15 0 None"
  let ?C = "example_alert [] ''Device recall - urgent'' ''GOVUK'' 15 0 None"
  let ?D = "example_alert [] ''Device recall - urgent!'' ''GOVUK'' 15 0 None"
  note t = remove_duplicates_first_kept_wins[of 0 1 fuzz_ratio example_manager
      "[?A, ?B, ?C]" ?D, unfolded example_remove]
  have d: "is_duplicate fuzz_ratio example_manager ?C ?D"
    by (simp add: example_simps)
  from t have 1: "\<not> is_duplicate fuzz_ratio example_manager ?A ?C" by simp
  from t d have 2: "remove_duplicates fuzz_ratio example_manager ([?A, ?B, ?C] @ [?D]) = [?A, ?C]"
    by simp
  show ?thesis using 1 2 d by (simp add: example_remove)
qed


text \<open>
  The claim as first stated fails: of three alerts where the first matches the second and the
  second matches the third, the first and the third are kept. The second and the third are
  directly matched, yet the later one of the two is retained and the earlier one is not.
\<close>

theorem remove_duplicates_chain_counterexample:
  "is_duplicate fuzz_ratio example_manager
     (example_alert ''X1'' ''Device recall'' ''CAS'' 15 0 None)
     (example_alert ''X1'' ''Device recall - urgent'' ''GOVUK'' 15 0 None) \<and>
   is_duplicate fuzz_ratio example_manager
     (example_alert ''X1'' ''Device recall - urgent'' ''GOVUK'' 15 0 None)
     (example_alert [] ''Device recall - urgent'' ''GOVUK'' 15 0 None) \<and>
   remove_duplicates fuzz_ratio example_manager
     [example_alert ''X1'' ''Device recall'' ''CAS'' 15 0 None,
      example_alert ''X1'' ''Device recall - urgent'' ''GOVUK'' 15 0 None,
      example_alert [] ''Device recall - urgent'' ''GOVUK'' 15 0 None]
   = [example_alert ''X1'' ''Device recall'' ''CAS'' 15 0 None,
      example_alert [] ''Device recall - urgent'' ''GOVUK'' 15 0 None]"
  by (simp add: example_remove) (simp add: example_simps)

text \<open>
  C4. The result of \<open>remove_duplicates\<close> is a subsequence of its input: every alert kept
  occurs in the input, and the alerts kept are in the order in which they occur there.
\<close>

theorem remove_duplicates_subsequence:
  "subseq (remove_duplicates ratio self alerts) alerts"
  unfolding remove_duplicates_eq
  by (rule subseq_order.trans[OF subseq_keep_first subseq_keep_new])

text \<open>
  C5. \<open>remove_duplicates\<close> is idempotent: applied to its own result, it returns that result
  unchanged, for every similarity function and every threshold.
\<close>

theorem remove_duplicates_idempotent:
  "remove_duplicates ratio self (remove_duplicates ratio self alerts)
     = remove_duplicates ratio self alerts"
proof -
  let ?ys = "remove_duplicates ratio self alerts"
  have s: "sorted_wrt (\<lambda>a b. \<not> is_duplicate ratio self a b) ?ys"
    by (simp add: remove_duplicates_eq sorted_wrt_keep_first)
  have "keep_new {} {} ?ys = ?ys"
    by (rule keep_new_id[OF s]) (simp add: seen_in_iff)
  then show ?thesis
    using keep_first_id[OF s] by (simp add: remove_duplicates_eq[of ratio self ?ys])
qed

section \<open>Selecting the alerts to append\<close>

text \<open>
  C6. The selection loop accepts the candidates in input order, and a candidate is accepted
  exactly when its non-empty hash is not among the hashes, and its non-empty reference not
  among the references, of the existing alerts and of the candidates accepted before it. The
  two sets are the non-empty hashes and the non-empty references. The loop does not take a
  similarity function: only equality of hashes and of references is tested.
\<close>

theorem alerts_to_add_selection:
  "alerts_to_add existing_alerts [] = [] \<and>
   alerts_to_add existing_alerts (new_alerts @ [alert]) =
     alerts_to_add existing_alerts new_alerts @
       (if (\<exists>h. hash_id alert = Some h \<and> h \<noteq> [] \<and>
                h \<in> existing_hashes_of
                      (existing_alerts @ alerts_to_add existing_alerts new_alerts)) \<or>
           (reference alert \<noteq> [] \<and>
            reference alert \<in> existing_references_of
                                 (existing_alerts @ alerts_to_add existing_alerts new_alerts))
        then [] else [alert]) \<and>
   existing_hashes_of known = {h. h \<noteq> [] \<and> (\<exists>a \<in> set known. hash_id a = Some h)} \<and>
   existing_references_of known = {r. r \<noteq> [] \<and> (\<exists>a \<in> set known. reference a = r)}"
proof -
  have "alerts_to_add existing_alerts [] = []" by (simp add: alerts_to_add_keep_new)
  moreover have "seen_in (Some r) S \<longleftrightarrow> r \<noteq> [] \<and> r \<in> S" for r S
    by (simp add: seen_in_def)
  ultimately show ?thesis
    using alerts_to_add_snoc[of existing_alerts new_alerts alert]
    by (simp add: existing_hashes_of_eq[of known] existing_references_of_eq[of known]
          seen_in_iff[of "hash_id alert"])
qed

text \<open>
  C7 (as amended). If every candidate has a non-empty hash or a non-empty reference, a second
  run with the same candidates, against the existing alerts extended by what the first run
  accepted, accepts nothing. Without that condition: the selection applied to its own result
  returns it unchanged, and with no existing alerts a candidate is accepted exactly when its
  non-empty hash and reference are not those of a candidate accepted before it.
\<close>

theorem alerts_to_add_second_run:
  "((\<forall>c\<in>set new_alerts. truthy (hash_id c) \<or> reference c \<noteq> []) \<longrightarrow>
      alerts_to_add (existing_alerts @ alerts_to_add existing_alerts new_alerts) new_alerts = []) \<and>
   alerts_to_add existing_alerts (alerts_to_add existing_alerts new_alerts)
     = alerts_to_add existing_alerts new_alerts \<and>
   alerts_to_add [] (new_alerts @ [alert]) =
     alerts_to_add [] new_alerts @
       (if seen_in (hash_id alert) (existing_hashes_of (alerts_to_add [] new_alerts)) \<or>
           seen_in (Some (reference alert)) (existing_references_of (alerts_to_add [] new_alerts))
        then [] else [alert])"
proof (intro conjI impI)
  assume ne: "\<forall>c\<in>set new_alerts. truthy (hash_id c) \<or> reference c \<noteq> []"
  let ?H = "existing_hashes_of existing_alerts" and ?R = "existing_references_of existing_alerts"
  let ?A = "keep_new ?H ?R new_alerts"
  have "\<forall>c\<in>set new_alerts. seen_in (hash_id c) (?H \<union> existing_hashes_of ?A) \<or>
          seen_in (Some (reference c)) (?R \<union> existing_references_of ?A)"
    using ne keep_new_covers by blast
  then have "keep_new (?H \<union> existing_hashes_of ?A) (?R \<union> existing_references_of ?A) new_alerts = []"
    by (rule keep_new_all_seen)
  then show "alerts_to_add (existing_alerts @ alerts_to_add existing_alerts new_alerts) new_alerts = []"
    by (simp add: alerts_to_add_keep_new existing_hashes_of_append existing_references_of_append)
next
  show "alerts_to_add existing_alerts (alerts_to_add existing_alerts new_alerts)
          = alerts_to_add existing_alerts new_alerts"
    by (simp add: alerts_to_add_keep_new keep_new_idem)
next
  show "alerts_to_add [] (new_alerts @ [alert]) =
     alerts_to_add [] new_alerts @
       (if seen_in (hash_id alert) (existing_hashes_of (alerts_to_add [] new_alerts)) \<or>
           seen_in (Some (reference alert)) (existing_references_of (alerts_to_add [] new_alerts))
        then [] else [alert])"
    using alerts_to_add_snoc[of "[]" new_alerts alert] by simp
qed

theorem alerts_to_add_second_run_witness:
  "alerts_to_add [example_alert ''X1'' ''Device recall'' ''CAS'' 15 0 None]
     [example_alert ''X1'' ''Device recall - urgent'' ''CAS'' 15 0 None,
      example_alert [] ''Pump fault'' ''GOVUK'' 15 0 None,
      example_alert [] ''Pump fault'' ''GOVUK'' 15 0 None]
     = [example_alert [] ''Pump fault'' ''GOVUK'' 15 0 None] \<and>
   alerts_to_add
     ([example_alert ''X1'' ''Device recall'' ''CAS'' 15 0 None] @
      alerts_to_add [example_alert ''X1'' ''Device recall'' ''CAS'' 15 0 None]
        [example_alert ''X1'' ''Device recall - urgent'' ''CAS'' 15 0 None,
         example_alert [] ''Pump fault'' ''GOVUK'' 15 0 None,
         example_alert [] ''Pump fault'' ''GOVUK'' 15 0 None])
     [example_alert ''X1'' ''Device recall - urgent'' ''CAS'' 15 0 None,
      example_alert [] ''Pump fault'' ''GOVUK'' 15 0 None,
      example_alert [] ''Pump fault'' ''GOVUK'' 15 0 None]
     = []"
proof -
  let ?K = "example_alert ''X1'' ''Device recall'' ''CAS'' 15 0 None"
  let ?A = "example_alert ''X1'' ''Device recall - urgent'' ''CAS'' 15 0 None"
  let ?B = "example_alert [] ''Pump fault'' ''GOVUK'' 15 0 None"
  have h: "\<forall>c\<in>set [?A, ?B, ?B]. truthy (hash_id c) \<or> reference c \<noteq> []"
    by (simp add: example_alert_fields)
  have 1: "alerts_to_add [?K] [?A, ?B, ?B] = [?B]"
    by (simp add: alerts_to_add_keep_new example_sets example_alert_fields strftime_example
          seen_in_def add_seen_def)
  from alerts_to_add_second_run[of "[?A, ?B, ?B]" "[?K]"] h
  have "alerts_to_add ([?K] @ alerts_to_add [?K] [?A, ?B, ?B]) [?A, ?B, ?B] = []"
    by blast
  with 1 show ?thesis by simp
qed


text \<open>
  The claim as first stated fails for a candidate whose hash and reference are both empty: it
  is accepted by the first run and again by the second.
\<close>

theorem alerts_to_add_second_run_counterexample:
  "alerts_to_add [] [example_alert [] ''Pump fault'' ''GOVUK'' 15 0 (Some [])]
     = [example_alert [] ''Pump fault'' ''GOVUK'' 15 0 (Some [])] \<and>
   alerts_to_add
     ([] @ alerts_to_add [] [example_alert [] ''Pump fault'' ''GOVUK'' 15 0 (Some [])])
     [example_alert [] ''Pump fault'' ''GOVUK'' 15 0 (Some [])]
     = [example_alert [] ''Pump fault'' ''GOVUK'' 15 0 (Some [])]"
  by (simp add: alerts_to_add_keep_new example_sets example_alert_fields
        seen_in_def add_seen_def)


section \<open>Rows\<close>

text \<open>
  C8 (as amended). For a constructed alert with valid timestamps whose years are written with
  four digits (the platform pads the year, or the years of the issue date and of the scrape
  time are 1000 or later), \<open>from_dict\<close> of \<open>to_dict\<close> succeeds and returns an alert with the
  same hash and the same reference, title, originator, status, alert type, source and URL. The
  issue date comes back as midnight of the same calendar day: the day is kept, the time of day
  is not. When a year is written with fewer than four digits, \<open>from_dict\<close> of \<open>to_dict\<close>
  raises \<^verbatim>\<open>ValueError\<close>.
\<close>

theorem to_dict_from_dict_round_trip:
  "constructed a \<longrightarrow>
     (years_in_full pad a \<longrightarrow>
        (\<exists>a'. from_dict md5 pad now_issue now_scraped (to_dict pad a) = Inr a' \<and>
              hash_id a' = hash_id a \<and>
              reference a' = reference a \<and> title a' = title a \<and>
              originator a' = originator a \<and> status a' = status a \<and>
              alert_type a' = alert_type a \<and> source a' = source a \<and> url a' = url a \<and>
              issue_date a' = midnight (issue_date a) \<and>
              date (issue_date a') = date (issue_date a))) \<and>
     (\<not> years_in_full pad a \<longrightarrow>
        from_dict md5 pad now_issue now_scraped (to_dict pad a) = Inl ValueError)"
proof (intro impI conjI)
  assume c: "constructed a"
  then obtain t h where sa: "scraped_at a = Some t" and vt: "valid_datetime t"
    and vi: "valid_datetime (issue_date a)" and hid: "hash_id a = Some h"
    by (auto simp: constructed_def split: option.splits)
  {
    assume "years_in_full pad a"
    then have yi: "pad \<or> 1000 \<le> year (issue_date a)" and yt: "pad \<or> 1000 \<le> year t"
      using sa by (auto simp: years_in_full_def)
    show "\<exists>a'. from_dict md5 pad now_issue now_scraped (to_dict pad a) = Inr a' \<and>
              hash_id a' = hash_id a \<and>
              reference a' = reference a \<and> title a' = title a \<and>
              originator a' = originator a \<and> status a' = status a \<and>
              alert_type a' = alert_type a \<and> source a' = source a \<and> url a' = url a \<and>
              issue_date a' = midnight (issue_date a) \<and>
              date (issue_date a') = date (issue_date a)"
      using sa hid
      by (simp add: from_dict_def Let_def to_dict_get strptime_strftime_ymd[OF vi yi]
            strptime_strftime_ymd_hms[OF vt yt] new_Alert_fields)
         (simp add: date_def midnight_def)
  }
  {
    assume n: "\<not> years_in_full pad a"
    then have np: "\<not> pad" by (simp add: years_in_full_def)
    show "from_dict md5 pad now_issue now_scraped (to_dict pad a) = Inl ValueError"
    proof (cases "year (issue_date a) < 1000")
      case True
      then show ?thesis
        by (simp add: from_dict_def Let_def to_dict_get
              strptime_strftime_ymd_short[OF vi np True])
    next
      case False
      with n sa have yt: "year t < 1000" by (auto simp: years_in_full_def)
      from False have yi: "pad \<or> 1000 \<le> year (issue_date a)" by simp
      show ?thesis
        using sa
        by (simp add: from_dict_def Let_def to_dict_get strptime_strftime_ymd[OF vi yi]
              strptime_strftime_ymd_hms_short[OF vt np yt])
    qed
  }
qed

lemma example_constructed:
  "constructed (example_alert ''X1'' ''Device recall'' ''CAS'' 15 10 None)"
  "years_in_full False (example_alert ''X1'' ''Device recall'' ''CAS'' 15 10 None)"
  by (simp_all add: constructed_def years_in_full_def example_alert_def new_Alert_fields
        example_datetime_def valid_datetime_def days_in_month_def)

theorem to_dict_from_dict_round_trip_witness:
  "constructed (example_alert ''X1'' ''Device recall'' ''CAS'' 15 10 None) \<and>
   years_in_full False (example_alert ''X1'' ''Device recall'' ''CAS'' 15 10 None) \<and>
   (\<exists>a'. from_dict example_digest False (example_datetime 20 8) (example_datetime 20 8)
            (to_dict False (example_alert ''X1'' ''Device recall'' ''CAS'' 15 10 None)) = Inr a' \<and>
         hash_id a' = Some ''md5:X1|Device recall|MHRA|2025-01-15'' \<and>
         reference a' = ''X1'' \<and> title a' = ''Device recall'' \<and> originator a' = ''MHRA'' \<and>
         status a' = ''Issued'' \<and> alert_type a' = ''Safety alert'' \<and> source a' = ''CAS'' \<and>
         url a' = ''https://example.org/alert'' \<and>
         issue_date a' = example_datetime 15 0)"
proof -
  let ?L = "example_alert ''X1'' ''Device recall'' ''CAS'' 15 10 None"
  have f: "hash_id ?L = Some ''md5:X1|Device recall|MHRA|2025-01-15''"
    "reference ?L = ''X1''" "title ?L = ''Device recall''" "originator ?L = ''MHRA''"
    "status ?L = ''Issued''" "alert_type ?L = ''Safety alert''" "source ?L = ''CAS''"
    "url ?L = ''https://example.org/alert''"
    "midnight (issue_date ?L) = example_datetime 15 0"
    by (simp_all add: example_alert_def new_Alert_fields example_digest_def strftime_ymd_def
          year_text_def example_datetime_def pad4_def pad2_def digit_def char_of_eq_iff
          midnight_def)
  from to_dict_from_dict_round_trip[of ?L False example_digest "example_datetime 20 8"
      "example_datetime 20 8"] example_constructed
  show ?thesis unfolding f by blast
qed

text \<open>
  The claim as first stated fails for an issue date with a time of day: ten o'clock comes
  back as midnight. It also fails where the year is written without padding: an alert issued
  in the year 999 is written \<^verbatim>\<open>999-01-15\<close>, which \<open>from_dict\<close> does not parse.
\<close>

theorem to_dict_from_dict_time_counterexample:
  "constructed (example_alert ''X1'' ''Device recall'' ''CAS'' 15 10 None) \<and>
   issue_date (example_alert ''X1'' ''Device recall'' ''CAS'' 15 10 None) = example_datetime 15 10 \<and>
   map_sum id issue_date
     (from_dict example_digest False (example_datetime 20 8) (example_datetime 20 8)
        (to_dict False (example_alert ''X1'' ''Device recall'' ''CAS'' 15 10 None)))
     = Inr (example_datetime 15 0) \<and>
   example_datetime 15 0 \<noteq> example_datetime 15 10 \<and>
   constructed ((example_alert ''X1'' ''Device recall'' ''CAS'' 15 0 None)
                  \<lparr>issue_date := (example_datetime 15 0)\<lparr>year := 999\<rparr>\<rparr>) \<and>
   to_dict False ((example_alert ''X1'' ''Device recall'' ''CAS'' 15 0 None)
                  \<lparr>issue_date := (example_datetime 15 0)\<lparr>year := 999\<rparr>\<rparr>) ''Issue Date''
     = Some ''999-01-15'' \<and>
   from_dict example_digest False (example_datetime 20 8) (example_datetime 20 8)
     (to_dict False ((example_alert ''X1'' ''Device recall'' ''CAS'' 15 0 None)
                  \<lparr>issue_date := (example_datetime 15 0)\<lparr>year := 999\<rparr>\<rparr>))
     = Inl ValueError"
proof -
  let ?L = "example_alert ''X1'' ''Device recall'' ''CAS'' 15 10 None"
  let ?O = "(example_alert ''X1'' ''Device recall'' ''CAS'' 15 0 None)
              \<lparr>issue_date := (example_datetime 15 0)\<lparr>year := 999\<rparr>\<rparr>"
  have c: "constructed ?L" by (rule example_constructed)
  then have vi: "valid_datetime (issue_date ?L)" by (simp add: constructed_def)
  have sa: "scraped_at ?L = Some (example_datetime 2 9)"
    by (simp add: example_alert_def new_Alert_fields)
  have vt: "valid_datetime (example_datetime 2 9)"
    by (simp add: example_datetime_def valid_datetime_def days_in_month_def)
  have i: "issue_date ?L = example_datetime 15 10"
    by (simp add: example_alert_def new_Alert_fields)
  have yi: "False \<or> 1000 \<le> year (issue_date ?L)" "False \<or> 1000 \<le> year (example_datetime 2 9)"
    by (simp_all add: i example_datetime_def)
  have "map_sum id issue_date
     (from_dict example_digest False (example_datetime 20 8) (example_datetime 20 8)
        (to_dict False ?L))
     = Inr (midnight (issue_date ?L))"
    by (simp add: from_dict_def Let_def to_dict_get strptime_strftime_ymd[OF vi yi(1)] sa
          strptime_strftime_ymd_hms[OF vt yi(2)] new_Alert_fields)
  moreover have "midnight (issue_date ?L) = example_datetime 15 0"
    by (simp add: i midnight_def example_datetime_def)
  moreover have "example_datetime 15 0 \<noteq> example_datetime 15 10"
    by (simp add: example_datetime_def)
  moreover have co: "constructed ?O"
    by (simp add: constructed_def example_alert_def new_Alert_fields example_datetime_def
          valid_datetime_def days_in_month_def)
  moreover have "to_dict False ?O ''Issue Date'' = Some ''999-01-15''"
    by (simp add: to_dict_def strftime_ymd_def year_text_def example_datetime_def pad2_def
          digit_def char_of_eq_iff)
  moreover have "from_dict example_digest False (example_datetime 20 8) (example_datetime 20 8)
     (to_dict False ?O) = Inl ValueError"
  proof -
    let ?d = "(example_datetime 15 0)\<lparr>year := 999\<rparr>"
    have v: "valid_datetime ?d"
      by (simp add: example_datetime_def valid_datetime_def days_in_month_def)
    have y: "year ?d < 1000" by simp
    have n: "strptime_ymd (strftime_ymd False ?d) = None"
      by (rule strptime_strftime_ymd_short[OF v _ y]) simp
    show ?thesis
      by (simp add: from_dict_def Let_def to_dict_get n)
  qed
  ultimately show ?thesis using c i by simp
qed

text \<open>
  C10 (as amended). When \<^verbatim>\<open>'Issue Date'\<close> is absent or empty and \<^verbatim>\<open>'Scraped At'\<close> is absent,
  empty or well formed, \<open>from_dict\<close> raises no error and the issue date is the reading of the
  clock; an absent or empty \<^verbatim>\<open>'Scraped At'\<close> is replaced by the clock as well; and when
  \<^verbatim>\<open>'Hash ID'\<close> is absent too, the hash is the digest of a content that ends in the day of
  the reconstruction, which differs from day to day. A non-empty \<^verbatim>\<open>'Scraped At'\<close> that does
  not parse raises \<^verbatim>\<open>ValueError\<close>.
\<close>

theorem from_dict_missing_issue_date:
  "(get_or data ''Issue Date'' [] = [] \<and>
    (get_or data ''Scraped At'' [] = [] \<or>
     strptime_ymd_hms (get_or data ''Scraped At'' []) \<noteq> None) \<longrightarrow>
      (\<exists>a. from_dict md5 pad now_issue now_scraped data = Inr a \<and>
           issue_date a = now_issue \<and>
           (get_or data ''Scraped At'' [] = [] \<longrightarrow> scraped_at a = Some now_scraped) \<and>
           (data ''Hash ID'' = None \<longrightarrow>
              hash_id a = Some (md5 (get_or data ''Reference'' [] @ ''|'' @
                                     get_or data ''Title'' [] @ ''|'' @
                                     get_or data ''Originator'' [] @ ''|'' @
                                     strftime_ymd pad now_issue))))) \<and>
   (get_or data ''Issue Date'' [] = [] \<and> get_or data ''Scraped At'' [] \<noteq> [] \<and>
    strptime_ymd_hms (get_or data ''Scraped At'' []) = None \<longrightarrow>
      from_dict md5 pad now_issue now_scraped data = Inl ValueError) \<and>
   (get_or data ''Issue Date'' [] = [] \<longleftrightarrow>
      data ''Issue Date'' = None \<or> data ''Issue Date'' = Some []) \<and>
   (valid_datetime now_issue \<and> valid_datetime now' \<and> date now_issue \<noteq> date now' \<longrightarrow>
      strftime_ymd pad now_issue \<noteq> strftime_ymd pad now')"
proof (intro conjI impI)
  assume a: "get_or data ''Issue Date'' [] = [] \<and>
    (get_or data ''Scraped At'' [] = [] \<or> strptime_ymd_hms (get_or data ''Scraped At'' []) \<noteq> None)"
  then show "\<exists>a. from_dict md5 pad now_issue now_scraped data = Inr a \<and>
           issue_date a = now_issue \<and>
           (get_or data ''Scraped At'' [] = [] \<longrightarrow> scraped_at a = Some now_scraped) \<and>
           (data ''Hash ID'' = None \<longrightarrow>
              hash_id a = Some (md5 (get_or data ''Reference'' [] @ ''|'' @
                                     get_or data ''Title'' [] @ ''|'' @
                                     get_or data ''Originator'' [] @ ''|'' @
                                     strftime_ymd pad now_issue)))"
    by (cases "strptime_ymd_hms (get_or data ''Scraped At'' [])")
       (auto simp: from_dict_def Let_def new_Alert_fields)
next
  assume "get_or data ''Issue Date'' [] = [] \<and> get_or data ''Scraped At'' [] \<noteq> [] \<and>
    strptime_ymd_hms (get_or data ''Scraped At'' []) = None"
  then show "from_dict md5 pad now_issue now_scraped data = Inl ValueError"
    by (simp add: from_dict_def Let_def)
next
  show "get_or data ''Issue Date'' [] = [] \<longleftrightarrow>
      data ''Issue Date'' = None \<or> data ''Issue Date'' = Some []"
    by (simp add: get_or_def split: option.splits)
next
  assume "valid_datetime now_issue \<and> valid_datetime now' \<and> date now_issue \<noteq> date now'"
  then show "strftime_ymd pad now_issue \<noteq> strftime_ymd pad now'"
    using strftime_ymd_inj by blast
qed

theorem from_dict_missing_issue_date_witness:
  "get_or [''Reference'' \<mapsto> ''X1'', ''Title'' \<mapsto> ''Device recall''] ''Issue Date'' [] = [] \<and>
   get_or [''Reference'' \<mapsto> ''X1'', ''Title'' \<mapsto> ''Device recall''] ''Scraped At'' [] = [] \<and>
   (\<exists>a. from_dict example_digest False (example_datetime 20 8) (example_datetime 20 9)
           [''Reference'' \<mapsto> ''X1'', ''Title'' \<mapsto> ''Device recall''] = Inr a \<and>
        issue_date a = example_datetime 20 8 \<and>
        scraped_at a = Some (example_datetime 20 9) \<and>
        hash_id a = Some ''md5:X1|Device recall||2025-01-20'') \<and>
   strftime_ymd False (example_datetime 20 8) \<noteq> strftime_ymd False (example_datetime 21 8) \<and>
   from_dict example_digest False (example_datetime 20 8) (example_datetime 20 9)
     [''Scraped At'' \<mapsto> ''yesterday''] = Inl ValueError"
proof -
  let ?data = "[''Reference'' \<mapsto> ''X1'', ''Title'' \<mapsto> ''Device recall'']"
  let ?bad = "[''Scraped At'' \<mapsto> ''yesterday'']"
  have g: "get_or ?data ''Issue Date'' [] = []" "get_or ?data ''Scraped At'' [] = []"
    "?data ''Hash ID'' = None" "get_or ?data ''Reference'' [] = ''X1''"
    "get_or ?data ''Title'' [] = ''Device recall''" "get_or ?data ''Originator'' [] = []"
    by (simp_all add: get_or_def)
  have s: "strftime_ymd False (example_datetime 20 8) = ''2025-01-20''"
    by (simp add: strftime_ymd_def year_text_def example_datetime_def pad4_def pad2_def
          digit_def char_of_eq_iff)
  have v: "valid_datetime (example_datetime 20 8)" "valid_datetime (example_datetime 21 8)"
    "date (example_datetime 20 8) \<noteq> date (example_datetime 21 8)"
    by (simp_all add: example_datetime_def valid_datetime_def days_in_month_def date_def)
  have b: "get_or ?bad ''Issue Date'' [] = []" "get_or ?bad ''Scraped At'' [] = ''yesterday''"
    "strptime_ymd_hms ''yesterday'' = None"
    by (simp_all add: get_or_def strptime_ymd_hms_def split_at_def)
  note t1 = from_dict_missing_issue_date[of ?data example_digest False "example_datetime 20 8"
      "example_datetime 20 9" "example_datetime 21 8", unfolded g s]
  note t2 = from_dict_missing_issue_date[of ?bad example_digest False "example_datetime 20 8"
      "example_datetime 20 9" "example_datetime 21 8", unfolded b]
  from t1 v have 1: "\<exists>a. from_dict example_digest False (example_datetime 20 8)
           (example_datetime 20 9) ?data = Inr a \<and> issue_date a = example_datetime 20 8 \<and>
        scraped_at a = Some (example_datetime 20 9) \<and>
        hash_id a = Some ''md5:X1|Device recall||2025-01-20''"
    by (simp add: example_digest_def)
  from t1 v s have 2: "strftime_ymd False (example_datetime 20 8)
                        \<noteq> strftime_ymd False (example_datetime 21 8)"
    by simp
  from t2 have 3: "from_dict example_digest False (example_datetime 20 8)
     (example_datetime 20 9) ?bad = Inl ValueError" by simp
  from g 1 2 3 show ?thesis by blast
qed

text \<open>
  The claim as first stated fails: a row without \<^verbatim>\<open>'Issue Date'\<close> whose \<^verbatim>\<open>'Scraped At'\<close> is
  malformed raises \<^verbatim>\<open>ValueError\<close>.
\<close>

theorem from_dict_scraped_at_counterexample:
  "[''Scraped At'' \<mapsto> ''yesterday''] ''Issue Date'' = None \<and>
   from_dict example_digest False (example_datetime 20 8) (example_datetime 20 9)
     [''Scraped At'' \<mapsto> ''yesterday''] = Inl ValueError"
  by (simp add: from_dict_def get_or_def strptime_ymd_hms_def split_at_def)


end
